theory Spec2Isabelle
  imports Main
begin

section \<open>The fedmsg notification daemon (fedmsg\_notify/daemon.py)\<close>

text \<open>
  A shallow embedding of the class \<open>FedmsgNotifyService\<close>. The attributes of the service
  object are the fields of the record \<open>service\<close>; what the methods do to the outside world
  (files of the cache directory, notifications shown and closed, timers handed to the
  reactor, bus signals, log lines) is recorded in further fields of the same record. The
  collaborators the daemon calls but does not define (fedmsg.text, fmn.lib, requests,
  libnotify, uuid, hashlib, the filter classes of filters.py) are the fields of the record
  \<open>env\<close>: total functions of their arguments, except where the source itself provides for
  their failure, in which case they return an error value.
\<close>

subsection \<open>Data\<close>

type_synonym path = string
type_synonym topic = string
type_synonym bytes = string

datatype error =
    KeyError string
  | ValueError
  | GError
  | ImportError string
  | CertError
  | AttributeError
  | OtherError string

datatype level = Debug | Info | Warning | Error | Exception

text \<open>A \<open>Notify.Notification\<close>: title, subtitle, icon and the \<open>image-path\<close> hint.\<close>

record notification =
  title :: string
  subtitle :: string
  icon :: "path option"
  image_path :: "path option"

text \<open>An instance of one of the filter classes: the class name and the settings string
  its constructor was given.\<close>

record cfilter =
  cname :: string
  csettings :: string

text \<open>The preference document of the notification service, as \<open>response.json()\<close> returns
  it. A key the document lacks is \<open>None\<close>; \<open>fn\<close> is the rule function that
  \<open>repopulate_functions\<close> adds.\<close>

datatype rule = Rule (code_path: "string option") (fn: "string option")
datatype pfilter = PFilter (rules: "rule list option")
datatype preference = Preference (pfilters: "pfilter list option")

text \<open>A \<open>requests\<close> response: its truth value (\<open>ok\<close>) and the result of \<open>json()\<close>,
  \<open>None\<close> when the body is not JSON.\<close>

record response =
  ok :: bool
  json :: "preference option"

text \<open>What \<open>downloadPage\<close> reports: the callback fires (with the file written, or
  without one), or the errback does.\<close>

datatype fetched = Callback "bytes option" | Errback

text \<open>What \<open>json.loads\<close> makes of the \<open>filter-settings\<close> string: it raises
  (\<open>Invalid\<close>), or returns a JSON object, a dictionary, or some other JSON value, on which
  \<open>.get\<close> is an \<open>AttributeError\<close>.\<close>

datatype settings_json = Invalid | NonObject | Object "string \<rightharpoonup> string"

text \<open>The values the daemon reads from GSettings when a setting changes.
  \<open>gs_enabled_filters\<close> is what \<open>get_enabled_filters(settings)\<close> returns.\<close>

record gsettings =
  gs_enabled_filters :: "string list"
  gs_filter_settings :: settings_json
  gs_emit_dbus_signals :: bool
  gs_expiration :: int

record 'b env =
  all_filters :: "string list"
  processors :: "(string \<times> string) list"
  filter_match :: "cfilter \<Rightarrow> 'b \<Rightarrow> string \<Rightarrow> bool"
  prefix_match :: "string \<Rightarrow> topic \<Rightarrow> bool"
  msg2processor :: "'b \<Rightarrow> string"
  recipients :: "preference list \<Rightarrow> 'b \<Rightarrow> string list \<Rightarrow> string list"
  load_rules :: "string list"
  load_class :: "string \<Rightarrow> error + string"
  username :: "error + string"
  http_get :: "string \<Rightarrow> response"
  msg2repr :: "'b \<Rightarrow> string"
  msg2title :: "'b \<Rightarrow> string option"
  msg2subtitle :: "'b \<Rightarrow> string option"
  msg2link :: "'b \<Rightarrow> string option"
  msg2icon :: "'b option \<Rightarrow> string option"
  msg2secondary_icon :: "'b option \<Rightarrow> string option"
  dumps :: "'b \<Rightarrow> string"
  get_body :: "'b \<Rightarrow> 'b option"
  get_openid :: "'b \<Rightarrow> string option"
  icon_id :: "string \<Rightarrow> string"
  cache_dir :: string
  hash_bytes :: "bytes \<Rightarrow> string"
  show_raises :: "notification \<Rightarrow> error option"
  close_raises :: "notification \<Rightarrow> error option"

record 'b service =
  use_server_prefs :: bool
  emit_dbus_signals :: bool
  max_notifications :: int
  expire :: int
  fmn_url :: string
  fmn_openid :: string
  preferences_cache :: "preference list option"
  valid_paths_cache :: "string list"
  enabled :: bool
  enabled_filters :: "string list"
  filters :: "cfilter list"
  service_filters :: "string list"
  notifications :: "notification list"
  icon_cache :: "string \<rightharpoonup> path"
  cache_files :: "path \<rightharpoonup> bytes"
  signals :: "(topic \<times> string) list"
  shown :: "notification list"
  closed_notes :: "notification list"
  timers :: "(int \<times> notification) list"
  pending :: "('b \<times> (string \<times> path) list) list"
  log_lines :: "(level \<times> string) list"
  notify_inited :: bool
  hub_open :: bool
  reactor_running :: bool
  pidfile :: bool

text \<open>A message as the hub delivers it to \<open>consume\<close>.\<close>

record 'b message =
  m_topic :: topic
  m_body :: 'b

definition logmsg :: "level \<Rightarrow> string \<Rightarrow> 'b service \<Rightarrow> 'b service" where
  "logmsg l t s = s\<lparr>log_lines := log_lines s @ [(l, t)]\<rparr>"

text \<open>Python's truth value of a string or \<open>None\<close>.\<close>

definition truthy :: "string option \<Rightarrow> bool" where
  "truthy x = (case x of None \<Rightarrow> False | Some t \<Rightarrow> t \<noteq> [])"

text \<open>\<open>x or ''\<close>.\<close>

definition or_empty :: "string option \<Rightarrow> string" where
  "or_empty x = (case x of None \<Rightarrow> [] | Some t \<Rightarrow> t)"

subsection \<open>Displaying a notification\<close>

definition format_text :: "'b env \<Rightarrow> 'b \<Rightarrow> string \<times> string" where
  "format_text e body =
     (let t = or_empty (msg2title e body);
          st = or_empty (msg2subtitle e body);
          link = or_empty (msg2link e body)
      in if link \<noteq> [] then (t, st @ '' '' @ link) else (t, st))"

text \<open>\<open>self._icon_cache.get(k)\<close>, where \<open>k\<close> may be \<open>None\<close>.\<close>

definition cache_get :: "'b service \<Rightarrow> string option \<Rightarrow> path option" where
  "cache_get s k = (case k of None \<Rightarrow> None | Some u \<Rightarrow> icon_cache s u)"

definition get_icons :: "'b env \<Rightarrow> 'b service \<Rightarrow> 'b \<Rightarrow> path option \<times> path option" where
  "get_icons e s body =
     (let ico = cache_get s (msg2icon e (Some body));
          secondary_icon = cache_get s (msg2secondary_icon e (Some body))
      in if truthy secondary_icon
         then (secondary_icon, if truthy ico then ico else secondary_icon)
         else if truthy ico then (ico, ico)
         else (None, None))"

text \<open>Lines 290 to 294 of \<open>display_notification\<close>: the notification object and its hint.\<close>

definition build_note :: "'b env \<Rightarrow> 'b service \<Rightarrow> 'b \<Rightarrow> notification" where
  "build_note e s body =
     (let (t, st) = format_text e body;
          (ico, secondary_icon) = get_icons e s body
      in \<lparr>title = t, subtitle = st, icon = ico,
          image_path = (if truthy secondary_icon then secondary_icon else None)\<rparr>)"

text \<open>\<open>reactor.callLater(self.expire, note.close)\<close>, when \<open>self.expire\<close> is not zero.
  The reactor asserts that the delay is not negative; the call is the last statement of the
  \<open>try\<close> block, so with a negative expiration the assertion is logged by the bare
  \<open>except\<close> and no timer exists.\<close>

definition schedule_expiry :: "notification \<Rightarrow> 'b service \<Rightarrow> 'b service" where
  "schedule_expiry n s =
     (if expire s \<noteq> 0
      then (if expire s < 0 then logmsg Exception ''Unable to display notification'' s
            else s\<lparr>timers := timers s @ [(expire s, n)]\<rparr>)
      else s)"

text \<open>The \<open>try\<close> block of \<open>display_notification\<close>. An exception of \<open>show\<close> or of the
  evicted notification's \<open>close\<close> leaves the block at that point and is logged.\<close>

definition push :: "'b env \<Rightarrow> notification \<Rightarrow> 'b service \<Rightarrow> 'b service" where
  "push e n s =
     (case show_raises e n of
        Some err \<Rightarrow> logmsg Exception ''Unable to display notification'' s
      | None \<Rightarrow>
          (let s1 = s\<lparr>shown := shown s @ [n], notifications := n # notifications s\<rparr>
           in if max_notifications s1 \<le> int (length (notifications s1))
              then (let victim = last (notifications s1);
                        s2 = s1\<lparr>notifications := butlast (notifications s1)\<rparr>
                    in case close_raises e victim of
                         Some err \<Rightarrow> logmsg Exception ''Unable to display notification'' s2
                       | None \<Rightarrow>
                           schedule_expiry n (s2\<lparr>closed_notes := closed_notes s2 @ [victim]\<rparr>))
              else schedule_expiry n s1))"

definition display_notification :: "'b env \<Rightarrow> 'b service \<Rightarrow> 'b \<Rightarrow> 'b service" where
  "display_notification e s body =
     (let s0 = logmsg Debug (msg2repr e body) s
      in push e (build_note e s0 body) s0)"

text \<open>Lines 143 to 148, the end of \<open>__init__\<close> on a daemon that starts: the notification
  \<open>activated\<close> is shown, a timer closes it after three seconds, and it is put into the queue
  with no look at \<open>max_notifications\<close>. An exception of \<open>show\<close> leaves \<open>__init__\<close>.\<close>

definition activated_note :: notification where
  "activated_note =
     \<lparr>title = ''fedmsg'', subtitle = ''activated'', icon = Some ''fedmsg-notify'',
      image_path = None\<rparr>"

definition activate :: "'b env \<Rightarrow> 'b service \<Rightarrow> (error + unit) \<times> 'b service" where
  "activate e s =
     (let s0 = s\<lparr>notify_inited := True\<rparr>
      in case show_raises e activated_note of
           Some err \<Rightarrow> (Inl err, s0)
         | None \<Rightarrow>
             (Inr (), s0\<lparr>shown := shown s0 @ [activated_note],
                         timers := timers s0 @ [(3, activated_note)],
                         notifications := activated_note # notifications s0,
                         enabled := True\<rparr>))"

text \<open>A timer of \<open>reactor.callLater\<close> fires: the call is \<open>note.close\<close>, nothing else.\<close>

definition fire_timer :: "'b env \<Rightarrow> nat \<Rightarrow> 'b service \<Rightarrow> (error + unit) \<times> 'b service" where
  "fire_timer e k s =
     (if k < length (timers s)
      then (let n = snd (timers s ! k);
                s1 = s\<lparr>timers := take k (timers s) @ drop (Suc k) (timers s)\<rparr>
            in case close_raises e n of
                 Some err \<Rightarrow> (Inl err, s1)
               | None \<Rightarrow> (Inr (), s1\<lparr>closed_notes := closed_notes s1 @ [n]\<rparr>))
      else (Inr (), s))"

subsection \<open>The icon cache\<close>

definition get_icon :: "'b env \<Rightarrow> 'b service \<Rightarrow> string \<Rightarrow> 'b service \<times> (string \<times> path) option" where
  "get_icon e s ic =
     (if truthy (icon_cache s ic) then (s, None)
      else (let filename = cache_dir e @ ''/'' @ icon_id e ic
            in if cache_files s filename = None
               then (logmsg Debug (''Downloading icon: '' @ ic) s, Some (ic, filename))
               else (s\<lparr>icon_cache := (icon_cache s)(ic \<mapsto> filename)\<rparr>, None)))"

definition cache_icon :: "'b env \<Rightarrow> 'b service \<Rightarrow> string \<Rightarrow> path \<Rightarrow> 'b service" where
  "cache_icon e s icon_url filename =
     (case cache_files s filename of
        None \<Rightarrow> logmsg Debug (''Failed to download '' @ icon_url) s
      | Some content \<Rightarrow>
          (let checksum = hash_bytes e content
           in case icon_cache s checksum of
                Some p \<Rightarrow>
                  s\<lparr>icon_cache := (icon_cache s)(icon_url \<mapsto> p),
                    cache_files := (cache_files s)(filename := None)\<rparr>
              | None \<Rightarrow>
                  s\<lparr>icon_cache := (icon_cache s)(icon_url \<mapsto> filename, checksum \<mapsto> filename)\<rparr>))"

text \<open>The download that \<open>get_icon\<close> started comes back: \<open>downloadPage\<close> has written the
  file (or not), and the deferred calls \<open>cache_icon\<close> or, on failure, \<open>log.error\<close>.\<close>

definition icon_downloaded ::
  "'b env \<Rightarrow> 'b service \<Rightarrow> string \<Rightarrow> path \<Rightarrow> fetched \<Rightarrow> 'b service" where
  "icon_downloaded e s ic filename outcome =
     (case outcome of
        Callback None \<Rightarrow> cache_icon e s ic filename
      | Callback (Some content) \<Rightarrow>
          cache_icon e (s\<lparr>cache_files := (cache_files s)(filename \<mapsto> content)\<rparr>) ic filename
      | Errback \<Rightarrow> logmsg Error (''Failure: '' @ ic) s)"

text \<open>One icon reference from request to cached path: \<open>get_icon\<close>, and the download it
  may have started, completed with \<open>outcome\<close>.\<close>

definition resolve :: "'b env \<Rightarrow> string \<Rightarrow> fetched \<Rightarrow> 'b service \<Rightarrow> 'b service" where
  "resolve e ic outcome s =
     (case get_icon e s ic of
        (s1, None) \<Rightarrow> s1
      | (s1, Some (u, filename)) \<Rightarrow> icon_downloaded e s1 u filename outcome)"

definition fetch_one ::
  "'b env \<Rightarrow> string option \<Rightarrow> 'b service \<Rightarrow> 'b service \<times> (string \<times> path) list" where
  "fetch_one e ic s =
     (if truthy ic
      then (case get_icon e s (the ic) of
              (s1, None) \<Rightarrow> (s1, [])
            | (s1, Some d) \<Rightarrow> (s1, [d]))
      else (s, []))"

definition fetch_icons :: "'b env \<Rightarrow> 'b service \<Rightarrow> 'b \<Rightarrow> 'b service \<times> (string \<times> path) list" where
  "fetch_icons e s msg =
     (let body = get_body e msg;
          (s1, d1) = fetch_one e (msg2icon e body) s;
          (s2, d2) = fetch_one e (msg2secondary_icon e body) s1
      in (s2, d1 @ d2))"

text \<open>\<open>notify\<close>: the deferred list of the icon downloads fires \<open>display_notification\<close>
  at once when no download is outstanding, and otherwise when the last one has come back
  (\<open>download_finished\<close>).\<close>

definition notify :: "'b env \<Rightarrow> 'b service \<Rightarrow> 'b \<Rightarrow> (error + unit) \<times> 'b service" where
  "notify e s msg =
     (let (s1, downloads) = fetch_icons e s msg
      in case get_body e msg of
           None \<Rightarrow> (Inl (KeyError ''body''), s1)
         | Some body \<Rightarrow>
             if downloads = [] then (Inr (), display_notification e s1 body)
             else (Inr (), s1\<lparr>pending := pending s1 @ [(body, downloads)]\<rparr>))"

definition download_finished ::
  "'b env \<Rightarrow> nat \<Rightarrow> string \<times> path \<Rightarrow> fetched \<Rightarrow> 'b service \<Rightarrow> 'b service" where
  "download_finished e j d outcome s =
     (if j < length (pending s) \<and> d \<in> set (snd (pending s ! j))
      then (let (body, downloads) = pending s ! j;
                s1 = icon_downloaded e s (fst d) (snd d) outcome;
                rest = remove1 d downloads
            in if rest = []
               then display_notification e
                      (s1\<lparr>pending := take j (pending s1) @ drop (Suc j) (pending s1)\<rparr>) body
               else s1\<lparr>pending := (pending s1)[j := (body, rest)]\<rparr>)
      else s)"

subsection \<open>Preferences of the notification service\<close>

definition openid :: "'b env \<Rightarrow> 'b service \<Rightarrow> (error + string) \<times> 'b service" where
  "openid e s =
     (if fmn_openid s = []
      then (case username e of
              Inl err \<Rightarrow> (Inl err, s)
            | Inr user \<Rightarrow>
                (let oid = user @ ''.id.fedoraproject.org''
                 in (Inr oid, s\<lparr>fmn_openid := oid\<rparr>)))
      else (Inr (fmn_openid s), s))"

fun repopulate_rules :: "'b env \<Rightarrow> rule list \<Rightarrow> error + rule list" where
  "repopulate_rules e [] = Inr []"
| "repopulate_rules e (r # rs) =
     (case code_path r of
        None \<Rightarrow> Inl (KeyError ''code_path'')
      | Some cp \<Rightarrow>
          (case load_class e cp of
             Inl err \<Rightarrow> Inl err
           | Inr f \<Rightarrow>
               (case repopulate_rules e rs of
                  Inl err \<Rightarrow> Inl err
                | Inr rs' \<Rightarrow> Inr (Rule (Some cp) (Some f) # rs'))))"

fun repopulate_filters :: "'b env \<Rightarrow> pfilter list \<Rightarrow> error + pfilter list" where
  "repopulate_filters e [] = Inr []"
| "repopulate_filters e (f # fs) =
     (case rules f of
        None \<Rightarrow> Inl (KeyError ''rules'')
      | Some rs \<Rightarrow>
          (case repopulate_rules e rs of
             Inl err \<Rightarrow> Inl err
           | Inr rs' \<Rightarrow>
               (case repopulate_filters e fs of
                  Inl err \<Rightarrow> Inl err
                | Inr fs' \<Rightarrow> Inr (PFilter (Some rs') # fs'))))"

definition repopulate_functions :: "'b env \<Rightarrow> preference \<Rightarrow> error + preference" where
  "repopulate_functions e p =
     (case pfilters p of
        None \<Rightarrow> Inl (KeyError ''filters'')
      | Some fs \<Rightarrow>
          (case repopulate_filters e fs of
             Inl err \<Rightarrow> Inl err
           | Inr fs' \<Rightarrow> Inr (Preference (Some fs'))))"

text \<open>\<open>not self._preferences\<close>: the cache is \<open>None\<close> (after an invalidation) or empty.\<close>

definition no_preferences :: "'b service \<Rightarrow> bool" where
  "no_preferences s = (case preferences_cache s of None \<Rightarrow> True | Some ps \<Rightarrow> ps = [])"

definition preferences :: "'b env \<Rightarrow> 'b service \<Rightarrow> (error + preference list) \<times> 'b service" where
  "preferences e s =
     (if no_preferences s
      then (case openid e s of
              (Inl err, s1) \<Rightarrow> (Inl err, s1)
            | (Inr oid, s1) \<Rightarrow>
                (let url = fmn_url s1 @ oid @ ''/desktop/'';
                     s2 = logmsg Info (''Getting preferences from '' @ url) s1;
                     resp = http_get e url
                 in if \<not> ok resp then (Inr [], logmsg Warning ''Failed with response'' s2)
                    else (case json resp of
                            None \<Rightarrow> (Inl ValueError, s2)
                          | Some p \<Rightarrow>
                              (case repopulate_functions e p of
                                 Inl err \<Rightarrow> (Inl err, s2)
                               | Inr p' \<Rightarrow>
                                   (Inr [p'], s2\<lparr>preferences_cache := Some [p']\<rparr>)))))
      else (Inr (the (preferences_cache s)), s))"

definition valid_paths :: "'b env \<Rightarrow> 'b service \<Rightarrow> string list \<times> 'b service" where
  "valid_paths e s =
     (if valid_paths_cache s = []
      then (load_rules e, s\<lparr>valid_paths_cache := load_rules e\<rparr>)
      else (valid_paths_cache s, s))"

subsection \<open>Routing a message\<close>

text \<open>\<open>p in t\<close> on strings.\<close>

fun contains :: "string \<Rightarrow> string \<Rightarrow> bool" where
  "contains p [] = (p = [])"
| "contains p (c # cs) = (take (length p) (c # cs) = p \<or> contains p cs)"

text \<open>Lines 245 to 252 of \<open>consume\<close>: the invalidation of the cached preferences by the
  user's own preference change, and the recipients of the message.\<close>

definition invalidate_on_change ::
  "'b env \<Rightarrow> 'b service \<Rightarrow> 'b \<Rightarrow> topic \<Rightarrow> (error + unit) \<times> 'b service" where
  "invalidate_on_change e s msg tp =
     (if contains ''.fmn.'' tp
      then (case get_openid e msg of
              None \<Rightarrow> (Inl (KeyError ''openid''), s)
            | Some oid \<Rightarrow>
                (case openid e s of
                   (Inl err, s1) \<Rightarrow> (Inl err, s1)
                 | (Inr me, s1) \<Rightarrow>
                     if oid = me
                     then (Inr (), (logmsg Info (''Noticed a pref change for '' @ oid) s1)
                                     \<lparr>preferences_cache := None\<rparr>)
                     else (Inr (), s1)))
      else (Inr (), s))"

definition server_recipients ::
  "'b env \<Rightarrow> 'b service \<Rightarrow> 'b \<Rightarrow> topic \<Rightarrow> (error + string list) \<times> 'b service" where
  "server_recipients e s msg tp =
     (case invalidate_on_change e s msg tp of
        (Inl err, s1) \<Rightarrow> (Inl err, s1)
      | (Inr _, s1) \<Rightarrow>
          (case preferences e s1 of
             (Inl err, s2) \<Rightarrow> (Inl err, s2)
           | (Inr prefs, s2) \<Rightarrow>
               (let (paths, s3) = valid_paths e s2
                in (Inr (recipients e prefs msg paths), s3))))"

text \<open>Lines 273 to 276: the bus signal, when enabled, and the notification.\<close>

definition dispatch :: "'b env \<Rightarrow> 'b service \<Rightarrow> 'b \<Rightarrow> topic \<Rightarrow> (error + unit) \<times> 'b service" where
  "dispatch e s msg tp =
     notify e (if emit_dbus_signals s then s\<lparr>signals := signals s @ [(tp, dumps e msg)]\<rparr> else s) msg"

definition consume :: "'b env \<Rightarrow> 'b service \<Rightarrow> 'b message \<Rightarrow> (error + unit) \<times> 'b service" where
  "consume e s m =
     (let msg = m_body m; tp = m_topic m
      in if use_server_prefs s
         then (case server_recipients e s msg tp of
                 (Inl err, s1) \<Rightarrow> (Inl err, s1)
               | (Inr rs, s1) \<Rightarrow>
                   if rs = []
                   then (Inr (), logmsg Debug (''Message to '' @ tp @ '' didn't match filters'') s1)
                   else dispatch e s1 msg tp)
         else (let processor = msg2processor e msg
               in case find (\<lambda>f. filter_match e f msg processor) (filters s) of
                    Some f \<Rightarrow>
                      dispatch e (logmsg Debug (''Matched topic '' @ tp @ '' with '' @ cname f) s) msg tp
                  | None \<Rightarrow>
                      (case find (\<lambda>p. prefix_match e p tp) (service_filters s) of
                         Some p \<Rightarrow>
                           dispatch e (logmsg Debug (''Matched topic '' @ tp @ '' with '' @ p) s) msg tp
                       | None \<Rightarrow>
                           (Inr (), logmsg Debug (''Message to '' @ tp @ '' didn't match filters'') s))))"

subsection \<open>Configuration changes\<close>

text \<open>The loop over \<open>all_filters\<close> in \<open>settings_changed\<close>. \<open>before\<close> is the list
  \<open>enabled\<close> of the class names of the filters loaded when the loop starts. The parsed
  settings are first used when a filter is instantiated: \<open>filter_settings.get\<close> raises
  there, in the middle of the loop, when they are not a dictionary.\<close>

text \<open>\<open>filter(filter_settings.get(name, ''))\<close>: a new instance of the class \<open>name\<close>.\<close>

definition instantiate :: "(string \<rightharpoonup> string) \<Rightarrow> string \<Rightarrow> cfilter" where
  "instantiate cfg name =
     \<lparr>cname = name, csettings = (case cfg name of None \<Rightarrow> [] | Some c \<Rightarrow> c)\<rparr>"

fun update_filters ::
  "settings_json \<Rightarrow> string list \<Rightarrow> string list \<Rightarrow> 'b service
     \<Rightarrow> (error + unit) \<times> 'b service" where
  "update_filters parsed before [] s = (Inr (), s)"
| "update_filters parsed before (name # rest) s =
     (let s1 = (if name \<in> set before \<and> name \<notin> set (enabled_filters s)
                then (logmsg Debug (''Removing filter: '' @ name) s)
                       \<lparr>filters := fold remove1 [f \<leftarrow> filters s. cname f = name] (filters s)\<rparr>
                else s)
      in if name \<notin> set before \<and> name \<in> set (enabled_filters s1)
         then (let s2 = logmsg Debug (''Initializing filter: '' @ name) s1
               in case parsed of
                    Object cfg \<Rightarrow>
                      update_filters parsed before rest
                        (s2\<lparr>filters := filters s2 @ [instantiate cfg name]\<rparr>)
                  | _ \<Rightarrow> (Inl AttributeError, s2))
         else update_filters parsed before rest s1)"

definition settings_changed ::
  "'b env \<Rightarrow> 'b service \<Rightarrow> gsettings \<Rightarrow> string \<Rightarrow> (error + unit) \<times> 'b service" where
  "settings_changed e s settings key =
     (let s0 = s\<lparr>enabled_filters := gs_enabled_filters settings\<rparr>
      in if key = ''enabled-filters''
         then (let s1 = (logmsg Debug ''Reloading filter settings'' s0)
                          \<lparr>service_filters :=
                             map snd [p \<leftarrow> processors e. fst p \<in> set (enabled_filters s0)]\<rparr>
               in if gs_filter_settings settings = Invalid then (Inl ValueError, s1)
                  else update_filters (gs_filter_settings settings)
                         (map cname (filters s1)) (all_filters e) s1)
         else if key = ''filter-settings'' then (Inr (), s0)
         else if key = ''emit-dbus-signals''
         then (Inr (), s0\<lparr>emit_dbus_signals := gs_emit_dbus_signals settings\<rparr>)
         else if key = ''expiration'' then (Inr (), s0\<lparr>expire := gs_expiration settings\<rparr>)
         else (Inr (), logmsg Warning (''Unknown setting changed: '' @ key) s0))"

subsection \<open>Shutdown\<close>

text \<open>The loop \<open>for note in self.notifications: note.close()\<close>: it ends at the first
  \<open>close\<close> that raises, with that exception.\<close>

fun close_each :: "'b env \<Rightarrow> notification list \<Rightarrow> 'b service \<Rightarrow> error option \<times> 'b service" where
  "close_each e [] s = (None, s)"
| "close_each e (n # ns) s =
     (case close_raises e n of
        Some err \<Rightarrow> (Some err, s)
      | None \<Rightarrow> close_each e ns (s\<lparr>closed_notes := closed_notes s @ [n]\<rparr>))"

text \<open>Lines 390 to 400: what follows the loop.\<close>

definition teardown :: "'b service \<Rightarrow> 'b service" where
  "teardown s =
     s\<lparr>notify_inited := False, hub_open := False, reactor_running := False,
       cache_files := Map.empty, pidfile := False\<rparr>"

text \<open>\<open>__del__\<close>, which \<open>Disable\<close> and the exit handler call. Only \<open>GLib.GError\<close> is
  caught around the loop.\<close>

definition del_service :: "'b env \<Rightarrow> 'b service \<Rightarrow> (error + unit) \<times> 'b service" where
  "del_service e s =
     (if \<not> enabled s then (Inr (), s)
      else (let s1 = s\<lparr>enabled := False\<rparr>
            in case close_each e (notifications s1) s1 of
                 (None, s2) \<Rightarrow> (Inr (), teardown s2)
               | (Some GError, s2) \<Rightarrow> (Inr (), teardown s2)
               | (Some err, s2) \<Rightarrow> (Inl err, s2)))"

subsection \<open>A concrete daemon\<close>

text \<open>A small instance on which the theorems below are evaluated: message bodies are
  strings, the filter class \<open>urgent\<close> matches the body \<open>high\<close>, a service filter matches the
  topics it is a prefix of, every icon is fetched from a URL made of the body, and the
  notification service knows no preferences.\<close>

definition demo_env :: "string env" where
  "demo_env =
     \<lparr>all_filters = [''urgent'', ''quiet'', ''loud''],
      processors = [(''bodhi'', ''org.bodhi''), (''koji'', ''org.koji'')],
      filter_match = (\<lambda>f b p. cname f = ''urgent'' \<and> b = ''high''),
      prefix_match = (\<lambda>p t. take (length p) t = p),
      msg2processor = (\<lambda>b. ''bodhi''),
      recipients = (\<lambda>ps b paths. if ps = [] then [] else [''alice'']),
      load_rules = [''fmn.rules''],
      load_class = (\<lambda>cp. Inr cp),
      username = Inr ''alice'',
      http_get = (\<lambda>url. \<lparr>ok = False, json = None\<rparr>),
      msg2repr = (\<lambda>b. b),
      msg2title = (\<lambda>b. Some b),
      msg2subtitle = (\<lambda>b. None),
      msg2link = (\<lambda>b. None),
      msg2icon = (\<lambda>b. case b of None \<Rightarrow> None | Some x \<Rightarrow> Some (''http://a/'' @ x)),
      msg2secondary_icon = (\<lambda>b. case b of None \<Rightarrow> None | Some x \<Rightarrow> Some (''http://b/'' @ x)),
      dumps = (\<lambda>b. b),
      get_body = (\<lambda>b. Some b),
      get_openid = (\<lambda>b. Some b),
      icon_id = (\<lambda>u. u),
      cache_dir = ''/tmp/c'',
      hash_bytes = (\<lambda>c. ''md5:'' @ c),
      show_raises = (\<lambda>n. None),
      close_raises = (\<lambda>n. None)\<rparr>"

definition demo_service :: "string service" where
  "demo_service =
     \<lparr>use_server_prefs = False,
      emit_dbus_signals = True,
      max_notifications = 2,
      expire = 0,
      fmn_url = ''https://fmn/'',
      fmn_openid = ''alice.id.fedoraproject.org'',
      preferences_cache = Some [],
      valid_paths_cache = [],
      enabled = True,
      enabled_filters = [],
      filters = [],
      service_filters = [],
      notifications = [],
      icon_cache = Map.empty,
      cache_files = Map.empty,
      signals = [],
      shown = [],
      closed_notes = [],
      timers = [],
      pending = [],
      log_lines = [],
      notify_inited = True,
      hub_open = True,
      reactor_running = True,
      pidfile = True\<rparr>"

definition demo_note :: "string \<Rightarrow> notification" where
  "demo_note t = \<lparr>title = t, subtitle = [], icon = None, image_path = None\<rparr>"

text \<open>The same daemon on a desktop where closing the notification titled \<open>b\<close> raises
  \<open>GLib.GError\<close>.\<close>

definition gerror_env :: "string env" where
  "gerror_env = demo_env\<lparr>close_raises := (\<lambda>n. if title n = ''b'' then Some GError else None)\<rparr>"

definition three_notes :: "string service" where
  "three_notes = demo_service\<lparr>notifications := [demo_note ''a'', demo_note ''b'', demo_note ''c'']\<rparr>"

text \<open>Two daemons whose icon cache knows both icons of the message \<open>x\<close>, or only the
  primary one.\<close>

definition both_icons :: "string service" where
  "both_icons = demo_service\<lparr>icon_cache :=
     [''http://a/x'' \<mapsto> ''/tmp/c/1'', ''http://b/x'' \<mapsto> ''/tmp/c/2'']\<rparr>"

definition primary_icon :: "string service" where
  "primary_icon = demo_service\<lparr>icon_cache := [''http://a/x'' \<mapsto> ''/tmp/c/1'']\<rparr>"

text \<open>A daemon with an expiration of five seconds and one notification in its queue.\<close>

definition expiring :: "string service" where
  "expiring = demo_service\<lparr>expire := 5, notifications := [demo_note ''z'']\<rparr>"

text \<open>A daemon in local-filter mode with one custom filter and one service filter, one in
  remote-preference mode, a message that matches nothing, and a notification service whose
  answer is not JSON.\<close>

definition local_daemon :: "string service" where
  "local_daemon = demo_service\<lparr>filters := [\<lparr>cname = ''urgent'', csettings = []\<rparr>],
     service_filters := [''org.bodhi'']\<rparr>"

definition remote_daemon :: "string service" where
  "remote_daemon = demo_service\<lparr>use_server_prefs := True\<rparr>"

definition quiet_message :: "string message" where
  "quiet_message = \<lparr>m_topic = ''org.koji.build'', m_body = ''low''\<rparr>"

definition malformed_env :: "string env" where
  "malformed_env = demo_env\<lparr>http_get := (\<lambda>url. \<lparr>ok = True, json = None\<rparr>)\<rparr>"

text \<open>A daemon with the filter \<open>urgent\<close> loaded, and settings that enable \<open>quiet\<close>,
  \<open>loud\<close> and the processor \<open>koji\<close> instead, with a configuration string for \<open>quiet\<close>
  and none for \<open>loud\<close>; the same settings with a \<open>filter-settings\<close> string that is
  not JSON.\<close>

definition urgent_daemon :: "string service" where
  "urgent_daemon = demo_service\<lparr>filters := [\<lparr>cname = ''urgent'', csettings = ''old''\<rparr>]\<rparr>"

definition new_settings :: gsettings where
  "new_settings =
     \<lparr>gs_enabled_filters = [''quiet'', ''loud'', ''koji''],
      gs_filter_settings = Object [''quiet'' \<mapsto> ''p''],
      gs_emit_dbus_signals = True,
      gs_expiration = 0\<rparr>"

definition broken_settings :: gsettings where
  "broken_settings = new_settings\<lparr>gs_filter_settings := Invalid\<rparr>"

text \<open>A daemon configured with \<open>max-notifications = 0\<close>, and one with a negative
  expiration.\<close>

definition zero_max :: "string service" where
  "zero_max = demo_service\<lparr>max_notifications := 0\<rparr>"

definition negative_expiry :: "string service" where
  "negative_expiry = demo_service\<lparr>expire := - 1\<rparr>"

text \<open>Two messages \<open>x\<close> arrive on a fresh daemon before any download has come back: each
  asks for the icon \<open>http://a/x\<close> and the secondary icon \<open>http://b/x\<close>. The four downloads
  then come back, all with the content \<open>png\<close>.\<close>

definition two_messages :: "string service" where
  "two_messages = fst (fetch_icons demo_env (fst (fetch_icons demo_env demo_service ''x'')) ''x'')"

definition two_messages_done :: "string service" where
  "two_messages_done =
     icon_downloaded demo_env
       (icon_downloaded demo_env
         (icon_downloaded demo_env
           (icon_downloaded demo_env two_messages
              ''http://a/x'' ''/tmp/c/http://a/x'' (Callback (Some ''png'')))
            ''http://b/x'' ''/tmp/c/http://b/x'' (Callback (Some ''png'')))
          ''http://a/x'' ''/tmp/c/http://a/x'' (Callback (Some ''png'')))
        ''http://b/x'' ''/tmp/c/http://b/x'' (Callback (Some ''png''))"

section \<open>Properties\<close>

subsection \<open>What logging and pushing leave alone\<close>

lemma logmsg_fields:
  "notifications (logmsg l t s) = notifications s"
  "closed_notes (logmsg l t s) = closed_notes s"
  "max_notifications (logmsg l t s) = max_notifications s"
  "icon_cache (logmsg l t s) = icon_cache s"
  "cache_files (logmsg l t s) = cache_files s"
  "expire (logmsg l t s) = expire s"
  "timers (logmsg l t s) = timers s"
  "shown (logmsg l t s) = shown s"
  "signals (logmsg l t s) = signals s"
  "pending (logmsg l t s) = pending s"
  by (simp_all add: logmsg_def)

lemma cache_get_cong: "icon_cache s' = icon_cache s \<Longrightarrow> cache_get s' k = cache_get s k"
  by (cases k) (simp_all add: cache_get_def)

lemma get_icons_cong: "icon_cache s' = icon_cache s \<Longrightarrow> get_icons e s' b = get_icons e s b"
  unfolding get_icons_def by (simp only: cache_get_cong[of s' s])

lemma build_note_cong: "icon_cache s' = icon_cache s \<Longrightarrow> build_note e s' b = build_note e s b"
  unfolding build_note_def by (simp only: get_icons_cong[of s' s])

lemma build_note_logmsg: "build_note e (logmsg l t s) b = build_note e s b"
  by (rule build_note_cong) (simp add: logmsg_def)

lemma push_fields:
  "icon_cache (push e n s) = icon_cache s"
  "max_notifications (push e n s) = max_notifications s"
  "expire (push e n s) = expire s"
  by (simp_all add: push_def logmsg_def schedule_expiry_def Let_def split: option.splits)

lemma push_notifications:
  "show_raises e n = None \<Longrightarrow>
   notifications (push e n s) =
     (if max_notifications s \<le> 1 + int (length (notifications s))
      then butlast (n # notifications s) else n # notifications s)"
  by (simp add: push_def logmsg_def schedule_expiry_def Let_def split: option.splits)

lemma push_closed:
  "show_raises e n = None \<Longrightarrow>
   closed_notes (push e n s) =
     closed_notes s @
       (if max_notifications s \<le> 1 + int (length (notifications s)) \<and>
           close_raises e (last (n # notifications s)) = None
        then [last (n # notifications s)] else [])"
  by (simp add: push_def logmsg_def schedule_expiry_def Let_def split: option.splits)

lemma display_as_push:
  "display_notification e s b = push e (build_note e s b) (logmsg Debug (msg2repr e b) s)"
  by (simp only: display_notification_def Let_def build_note_logmsg)

lemma display_fields:
  "icon_cache (display_notification e s b) = icon_cache s"
  "max_notifications (display_notification e s b) = max_notifications s"
  "expire (display_notification e s b) = expire s"
  by (simp_all add: display_as_push push_fields logmsg_fields)

lemma display_notifications:
  "show_raises e (build_note e s b) = None \<Longrightarrow>
   notifications (display_notification e s b) =
     (if max_notifications s \<le> 1 + int (length (notifications s))
      then butlast (build_note e s b # notifications s) else build_note e s b # notifications s)"
  by (simp add: display_as_push push_notifications logmsg_fields)

lemma display_closed:
  "show_raises e (build_note e s b) = None \<Longrightarrow>
   closed_notes (display_notification e s b) =
     closed_notes s @
       (if max_notifications s \<le> 1 + int (length (notifications s)) \<and>
           close_raises e (last (build_note e s b # notifications s)) = None
        then [last (build_note e s b # notifications s)] else [])"
  by (simp add: display_as_push push_closed logmsg_fields)

lemma build_note_demo: "build_note demo_env demo_service b = demo_note b"
  by (simp add: build_note_def format_text_def get_icons_def cache_get_def truthy_def
      or_empty_def demo_env_def demo_service_def demo_note_def)

subsection \<open>The notification queue\<close>

lemma push_bound:
  "int (length (notifications s)) \<le> max_notifications s \<Longrightarrow>
   int (length (notifications (push e n s))) \<le> max_notifications s"
  by (auto simp: push_def logmsg_def schedule_expiry_def Let_def split: option.splits)

lemma pushes_bound:
  "int (length (notifications s)) \<le> max_notifications s \<Longrightarrow>
   int (length (notifications (fold (push e) ns s))) \<le> max_notifications s"
proof (induction ns arbitrary: s)
  case Nil
  then show ?case by simp
next
  case (Cons n ns)
  have "int (length (notifications (push e n s))) \<le> max_notifications (push e n s)"
    using push_bound [OF Cons.prems] by (simp add: push_fields)
  from Cons.IH [OF this] show ?case by (simp add: push_fields)
qed

lemma activate_queue:
  "max_notifications (snd (activate e s)) = max_notifications s"
  "notifications s = [] \<Longrightarrow> int (length (notifications (snd (activate e s)))) \<le> 1"
  by (simp_all add: activate_def Let_def split: option.splits)

text \<open>
  C2, as the code has it. A push puts the new notification at the front of the queue; when
  the queue has then reached \<open>max_notifications\<close>, its last (oldest) entry is taken out and
  closed. Only one entry is taken out, so the bound is kept, not established: a queue that
  did not exceed \<open>max_notifications\<close> before the push does not exceed it after, nor after
  any number of further pushes. The queue of a daemon that has just started is such a
  queue when \<open>max_notifications\<close> is at least one.
\<close>

theorem push_front_and_bound:
  "(int (length (notifications s)) \<le> max_notifications s \<longrightarrow>
      int (length (notifications (push e n s))) \<le> max_notifications s
      \<and> int (length (notifications (fold (push e) ns s))) \<le> max_notifications s)
   \<and> (notifications s = [] \<and> 1 \<le> max_notifications s \<longrightarrow>
      int (length (notifications (fold (push e) ns (snd (activate e s))))) \<le> max_notifications s)
   \<and> (show_raises e n = None \<longrightarrow>
        notifications (push e n s) =
          (if max_notifications s \<le> 1 + int (length (notifications s))
           then butlast (n # notifications s) else n # notifications s))
   \<and> (show_raises e n = None \<and> max_notifications s \<le> 1 + int (length (notifications s))
        \<and> close_raises e (last (n # notifications s)) = None \<longrightarrow>
        closed_notes (push e n s) = closed_notes s @ [last (n # notifications s)])
   \<and> max_notifications (push e n s) = max_notifications s"
proof -
  have a: "int (length (notifications (fold (push e) ns (snd (activate e s)))))
      \<le> max_notifications s"
    if "notifications s = []" "1 \<le> max_notifications s"
  proof -
    have "int (length (notifications (snd (activate e s))))
        \<le> max_notifications (snd (activate e s))"
      using activate_queue(2) [OF that(1), of e] that(2) by (simp add: activate_queue(1))
    from pushes_bound [OF this] show ?thesis by (simp add: activate_queue(1))
  qed
  show ?thesis
    using a by (simp add: push_bound pushes_bound push_notifications push_closed push_fields)
qed

theorem push_front_and_bound_witness:
  "int (length (notifications (demo_service\<lparr>notifications := [demo_note ''a'']\<rparr>)))
     \<le> max_notifications (demo_service\<lparr>notifications := [demo_note ''a'']\<rparr>)
   \<and> show_raises demo_env (demo_note ''b'') = None
   \<and> close_raises demo_env (demo_note ''a'') = None
   \<and> notifications (push demo_env (demo_note ''b'')
        (demo_service\<lparr>notifications := [demo_note ''a'']\<rparr>)) = [demo_note ''b'']
   \<and> closed_notes (push demo_env (demo_note ''b'')
        (demo_service\<lparr>notifications := [demo_note ''a'']\<rparr>)) = [demo_note ''a'']
   \<and> int (length (notifications (push demo_env (demo_note ''b'')
        (demo_service\<lparr>notifications := [demo_note ''a'']\<rparr>)))) \<le> 2
   \<and> int (length (notifications (fold (push demo_env)
        [demo_note ''b'', demo_note ''c'', demo_note ''d'']
        (demo_service\<lparr>notifications := [demo_note ''a'']\<rparr>)))) \<le> 2
   \<and> notifications demo_service = [] \<and> 1 \<le> max_notifications demo_service
   \<and> int (length (notifications (fold (push demo_env)
        [demo_note ''b'', demo_note ''c'', demo_note ''d'']
        (snd (activate demo_env demo_service))))) \<le> 2"
proof -
  have d: "notifications demo_service = []" "max_notifications demo_service = 2"
    by (simp_all add: demo_service_def)
  have q: "notifications (demo_service\<lparr>notifications := [demo_note ''a'']\<rparr>) = [demo_note ''a'']"
    "max_notifications (demo_service\<lparr>notifications := [demo_note ''a'']\<rparr>) = 2"
    "closed_notes (demo_service\<lparr>notifications := [demo_note ''a'']\<rparr>) = []"
    by (simp_all add: demo_service_def)
  have r: "show_raises demo_env n = None" "close_raises demo_env n = None" for n
    by (simp_all add: demo_env_def)
  show ?thesis
    using push_front_and_bound [of "demo_service\<lparr>notifications := [demo_note ''a'']\<rparr>"
        demo_env "demo_note ''b''" "[demo_note ''b'', demo_note ''c'', demo_note ''d'']"]
      push_front_and_bound [of demo_service
        demo_env "demo_note ''b''" "[demo_note ''b'', demo_note ''c'', demo_note ''d'']"]
    by (simp add: d q r)
qed

text \<open>The claim as stated, with no condition on the queue, fails on the daemon itself:
  configured with \<open>max-notifications = 0\<close> it starts with one notification in the queue,
  and after a push the queue still holds one.\<close>

theorem push_bound_counterexample:
  "\<not> int (length (notifications (push demo_env (demo_note ''a'')
        (snd (activate demo_env zero_max))))) \<le> max_notifications zero_max"
proof -
  have a: "notifications (snd (activate demo_env zero_max)) = [activated_note]"
    "max_notifications (snd (activate demo_env zero_max)) = 0"
    "max_notifications zero_max = 0"
    by (simp_all add: activate_def Let_def zero_max_def demo_env_def demo_service_def)
  have r: "show_raises demo_env n = None" for n by (simp add: demo_env_def)
  show ?thesis by (simp add: push_notifications [OF r] a)
qed

lemma three_displays:
  assumes m: "max_notifications s = 2" and q: "notifications s = []"
    and s1: "show_raises e (build_note e s b1) = None"
    and s2: "show_raises e (build_note e s b2) = None"
    and s3: "show_raises e (build_note e s b3) = None"
    and c1: "close_raises e (build_note e s b1) = None"
    and c2: "close_raises e (build_note e s b2) = None"
  shows "notifications
           (display_notification e (display_notification e (display_notification e s b1) b2) b3)
           = [build_note e s b3] \<and>
         closed_notes
           (display_notification e (display_notification e (display_notification e s b1) b2) b3)
           = closed_notes s @ [build_note e s b1, build_note e s b2]"
proof -
  define d1 where "d1 = display_notification e s b1"
  define d2 where "d2 = display_notification e d1 b2"
  have n2: "build_note e d1 b2 = build_note e s b2"
    unfolding d1_def by (rule build_note_cong) (simp add: display_fields)
  have n3: "build_note e d2 b3 = build_note e s b3"
    unfolding d2_def d1_def by (rule build_note_cong) (simp add: display_fields)
  have q1: "notifications d1 = [build_note e s b1]" and k1: "closed_notes d1 = closed_notes s"
    and m1: "max_notifications d1 = 2"
    unfolding d1_def using m q s1
    by (simp_all add: display_notifications display_closed display_fields)
  have q2: "notifications d2 = [build_note e s b2]"
    and k2: "closed_notes d2 = closed_notes s @ [build_note e s b1]"
    and m2: "max_notifications d2 = 2"
    unfolding d2_def using m1 q1 k1 s2 c1 n2
    by (simp_all add: display_notifications display_closed display_fields)
  have "notifications (display_notification e d2 b3) = [build_note e s b3]"
    and "closed_notes (display_notification e d2 b3)
           = closed_notes s @ [build_note e s b1, build_note e s b2]"
    using m2 q2 k2 s3 c2 n3
    by (simp_all add: display_notifications display_closed display_fields)
  then show ?thesis unfolding d2_def d1_def by simp
qed

text \<open>
  C3, as the code has it. With \<open>max_notifications = 2\<close> and an empty queue, after three
  notifications have been displayed the queue holds exactly one, the third; the first
  (and the second) have been closed. The test \<open>len(self.notifications) >= max\<close> evicts as
  soon as the queue reaches the maximum.
\<close>

theorem three_pushes_leave_one:
  assumes "max_notifications s = 2" and "notifications s = []"
    and "show_raises e (build_note e s b1) = None"
    and "show_raises e (build_note e s b2) = None"
    and "show_raises e (build_note e s b3) = None"
    and "close_raises e (build_note e s b1) = None"
    and "close_raises e (build_note e s b2) = None"
  shows "length (notifications
           (display_notification e (display_notification e (display_notification e s b1) b2) b3))
           = 1 \<and>
         notifications
           (display_notification e (display_notification e (display_notification e s b1) b2) b3)
           = [build_note e s b3] \<and>
         build_note e s b1 \<in> set (closed_notes
           (display_notification e (display_notification e (display_notification e s b1) b2) b3))"
  using three_displays [OF assms] by simp

theorem three_pushes_leave_one_witness:
  "max_notifications demo_service = 2 \<and> notifications demo_service = []
   \<and> show_raises demo_env (demo_note ''a'') = None
   \<and> close_raises demo_env (demo_note ''a'') = None
   \<and> notifications (display_notification demo_env (display_notification demo_env
        (display_notification demo_env demo_service ''a'') ''b'') ''c'') = [demo_note ''c'']
   \<and> demo_note ''a'' \<in> set (closed_notes (display_notification demo_env
        (display_notification demo_env
          (display_notification demo_env demo_service ''a'') ''b'') ''c''))"
proof -
  have h: "max_notifications demo_service = 2" "notifications demo_service = []"
    by (simp_all add: demo_service_def)
  have r: "show_raises demo_env n = None" "close_raises demo_env n = None" for n
    by (simp_all add: demo_env_def)
  show ?thesis
    using three_pushes_leave_one [OF h r(1) r(1) r(1) r(2) r(2), of "''a''" "''b''" "''c''"] h r
    by (simp add: build_note_demo)
qed

text \<open>The claim as the specification states it, two notifications left in the queue,
  fails on the concrete daemon.\<close>

theorem three_pushes_counterexample:
  "\<not> (length (notifications (display_notification demo_env (display_notification demo_env
          (display_notification demo_env demo_service ''a'') ''b'') ''c'')) = 2
      \<and> demo_note ''a'' \<in> set (closed_notes (display_notification demo_env
          (display_notification demo_env
            (display_notification demo_env demo_service ''a'') ''b'') ''c'')))"
proof -
  have h: "max_notifications demo_service = 2" "notifications demo_service = []"
    by (simp_all add: demo_service_def)
  have r: "show_raises demo_env n = None" "close_raises demo_env n = None" for n
    by (simp_all add: demo_env_def)
  show ?thesis
    using three_displays [OF h r(1) r(1) r(1) r(2) r(2), of "''a''" "''b''" "''c''"]
    by simp
qed

subsection \<open>Expiration\<close>

lemma push_timers:
  "show_raises e n = None \<Longrightarrow>
   (max_notifications s \<le> 1 + int (length (notifications s)) \<longrightarrow>
      close_raises e (last (n # notifications s)) = None) \<Longrightarrow>
   timers (push e n s) = timers s @ (if 0 < expire s then [(expire s, n)] else [])"
  by (simp add: push_def logmsg_def schedule_expiry_def Let_def split: option.splits)

lemma push_shown:
  "show_raises e n = None \<Longrightarrow> shown (push e n s) = shown s @ [n]"
  by (simp add: push_def logmsg_def schedule_expiry_def Let_def split: option.splits)

lemma fire_timer_notifications: "notifications (snd (fire_timer e j u)) = notifications u"
  by (simp add: fire_timer_def Let_def split: option.splits)

lemma fire_timer_closes:
  "j < length (timers u) \<Longrightarrow> close_raises e (snd (timers u ! j)) = None \<Longrightarrow>
   fire_timer e j u =
     (Inr (), u\<lparr>timers := take j (timers u) @ drop (Suc j) (timers u),
                closed_notes := closed_notes u @ [snd (timers u ! j)]\<rparr>)"
  by (simp add: fire_timer_def Let_def)

lemma push_expiring:
  "push demo_env (demo_note ''a'') expiring =
     expiring\<lparr>shown := [demo_note ''a''], notifications := [demo_note ''a''],
       closed_notes := [demo_note ''z''], timers := [(5, demo_note ''a'')]\<rparr>"
  by (simp add: push_def schedule_expiry_def Let_def expiring_def demo_env_def demo_service_def)

text \<open>
  C5, as the code has it. When a notification has been shown, the expiration is positive
  and the eviction of that push (if any) did not raise, one timer with the configured
  delay is handed to the reactor for it; with a negative expiration there is none. When a
  timer fires it closes its notification, again if an eviction had closed it already, and
  does nothing else: the queue is what it was, the notification is not taken out of it.
\<close>

theorem expiry_timer_closes_only:
  "(show_raises e n = None
      \<and> (max_notifications s \<le> 1 + int (length (notifications s)) \<longrightarrow>
           close_raises e (last (n # notifications s)) = None)
     \<longrightarrow> (0 < expire s \<longrightarrow> timers (push e n s) = timers s @ [(expire s, n)])
       \<and> (expire s \<le> 0 \<longrightarrow> timers (push e n s) = timers s))
   \<and> notifications (snd (fire_timer e j u)) = notifications u
   \<and> (j < length (timers u) \<and> snd (timers u ! j) = n \<and> close_raises e n = None \<longrightarrow>
         closed_notes (snd (fire_timer e j u)) = closed_notes u @ [n]
         \<and> timers (snd (fire_timer e j u)) = take j (timers u) @ drop (Suc j) (timers u))"
  by (auto simp: push_timers fire_timer_notifications fire_timer_closes)

theorem expiry_timer_closes_only_witness:
  "show_raises demo_env (demo_note ''a'') = None \<and> 0 < expire expiring
   \<and> max_notifications expiring \<le> 1 + int (length (notifications expiring))
   \<and> close_raises demo_env (last (demo_note ''a'' # notifications expiring)) = None
   \<and> timers (push demo_env (demo_note ''a'') expiring) = [(5, demo_note ''a'')]
   \<and> notifications (snd (fire_timer demo_env 0 (push demo_env (demo_note ''a'') expiring)))
       = [demo_note ''a'']
   \<and> closed_notes (snd (fire_timer demo_env 0 (push demo_env (demo_note ''a'') expiring)))
       = [demo_note ''z'', demo_note ''a'']
   \<and> timers (snd (fire_timer demo_env 0 (push demo_env (demo_note ''a'') expiring))) = []
   \<and> expire negative_expiry \<le> 0
   \<and> \<not> max_notifications negative_expiry \<le> 1 + int (length (notifications negative_expiry))
   \<and> timers (push demo_env (demo_note ''a'') negative_expiry) = []"
proof -
  have h: "show_raises demo_env (demo_note ''a'') = None" "0 < expire expiring"
    "max_notifications expiring \<le> 1 + int (length (notifications expiring))"
    "close_raises demo_env (last (demo_note ''a'' # notifications expiring)) = None"
    "close_raises demo_env (demo_note ''a'') = None"
    by (simp_all add: demo_env_def expiring_def demo_service_def)
  have g: "expire negative_expiry \<le> 0" "timers negative_expiry = []"
    "\<not> max_notifications negative_expiry \<le> 1 + int (length (notifications negative_expiry))"
    by (simp_all add: negative_expiry_def demo_service_def)
  show ?thesis
    using expiry_timer_closes_only [of demo_env "demo_note ''a''" expiring 0
        "push demo_env (demo_note ''a'') expiring"]
      expiry_timer_closes_only [of demo_env "demo_note ''a''" negative_expiry 0 negative_expiry]
      h g
    by (simp add: push_expiring)
qed

text \<open>The claim as stated fails: with an expiration of five seconds the notification is
  still in the queue after its timer has fired.\<close>

theorem expiry_counterexample:
  "timers (display_notification demo_env (demo_service\<lparr>expire := 5\<rparr>) ''a'')
     = [(5, demo_note ''a'')]
   \<and> demo_note ''a'' \<in> set (notifications (snd (fire_timer demo_env 0
        (display_notification demo_env (demo_service\<lparr>expire := 5\<rparr>) ''a''))))"
proof -
  have b: "build_note demo_env (demo_service\<lparr>expire := 5\<rparr>) ''a'' = demo_note ''a''"
    using build_note_cong [of "demo_service\<lparr>expire := 5\<rparr>" demo_service demo_env "''a''"]
    by (simp add: build_note_demo)
  have r: "show_raises demo_env n = None" for n by (simp add: demo_env_def)
  have q: "notifications (demo_service\<lparr>expire := 5\<rparr>) = []"
    "max_notifications (demo_service\<lparr>expire := 5\<rparr>) = 2"
    "timers (demo_service\<lparr>expire := 5\<rparr>) = []"
    by (simp_all add: demo_service_def)
  have t: "timers (display_notification demo_env (demo_service\<lparr>expire := 5\<rparr>) ''a'')
     = [(5, demo_note ''a'')]"
    using q r by (simp add: display_as_push b push_timers logmsg_fields)
  have n: "notifications (display_notification demo_env (demo_service\<lparr>expire := 5\<rparr>) ''a'')
     = [demo_note ''a'']"
    using q r by (simp add: display_notifications b)
  show ?thesis using t n by (simp add: fire_timer_notifications)
qed

subsection \<open>Shutdown\<close>

lemma close_each_result:
  "\<forall>n\<in>set ns. close_raises e n = None \<or> close_raises e n = Some GError \<Longrightarrow>
   close_each e ns s =
     ((if \<forall>n\<in>set ns. close_raises e n = None then None else Some GError),
      s\<lparr>closed_notes := closed_notes s @ takeWhile (\<lambda>n. close_raises e n = None) ns\<rparr>)"
  by (induction ns arbitrary: s) auto

lemma gerror_env_close:
  "close_raises gerror_env (demo_note t) = (if t = ''b'' then Some GError else None)"
  by (simp add: gerror_env_def demo_env_def demo_note_def)

text \<open>
  C6, as the code has it. On an enabled service whose \<open>close\<close> calls raise nothing or
  \<open>GLib.GError\<close>, \<open>__del__\<close> closes the queued notifications in queue order up to the first
  one whose \<open>close\<close> raises: all of them when none raises. The \<open>GLib.GError\<close> is caught
  around the whole loop and not logged; the rest of the teardown follows. The list of
  notifications itself is left as it is.
\<close>

theorem del_closes_until_error:
  assumes "enabled s"
    and "\<forall>n\<in>set (notifications s). close_raises e n = None \<or> close_raises e n = Some GError"
  shows "del_service e s =
      (Inr (), teardown (s\<lparr>enabled := False,
         closed_notes := closed_notes s @
            takeWhile (\<lambda>n. close_raises e n = None) (notifications s)\<rparr>))
    \<and> notifications (snd (del_service e s)) = notifications s
    \<and> log_lines (snd (del_service e s)) = log_lines s
    \<and> ((\<forall>n\<in>set (notifications s). close_raises e n = None) \<longrightarrow>
          closed_notes (snd (del_service e s)) = closed_notes s @ notifications s)"
proof -
  have c: "close_each e (notifications s) (s\<lparr>enabled := False\<rparr>) =
     ((if \<forall>n\<in>set (notifications s). close_raises e n = None then None else Some GError),
      s\<lparr>enabled := False, closed_notes := closed_notes s @
            takeWhile (\<lambda>n. close_raises e n = None) (notifications s)\<rparr>)"
    using close_each_result [OF assms(2), of "s\<lparr>enabled := False\<rparr>"] by simp
  have d: "del_service e s =
      (Inr (), teardown (s\<lparr>enabled := False,
         closed_notes := closed_notes s @
            takeWhile (\<lambda>n. close_raises e n = None) (notifications s)\<rparr>))"
    using assms(1) c by (simp add: del_service_def Let_def)
  have t: "(\<forall>n\<in>set (notifications s). close_raises e n = None) \<Longrightarrow>
     takeWhile (\<lambda>n. close_raises e n = None) (notifications s) = notifications s"
    by simp
  show ?thesis using d t by (simp add: teardown_def)
qed

theorem del_closes_until_error_witness:
  "enabled three_notes
   \<and> close_raises gerror_env (demo_note ''a'') = None
   \<and> close_raises gerror_env (demo_note ''b'') = Some GError
   \<and> close_raises gerror_env (demo_note ''c'') = None
   \<and> fst (del_service gerror_env three_notes) = Inr ()
   \<and> closed_notes (snd (del_service gerror_env three_notes)) = [demo_note ''a'']
   \<and> notifications (snd (del_service gerror_env three_notes))
       = [demo_note ''a'', demo_note ''b'', demo_note ''c'']
   \<and> closed_notes (snd (del_service demo_env three_notes))
       = [demo_note ''a'', demo_note ''b'', demo_note ''c'']"
proof -
  have h: "enabled three_notes" "closed_notes three_notes = []"
    "notifications three_notes = [demo_note ''a'', demo_note ''b'', demo_note ''c'']"
    by (simp_all add: three_notes_def demo_service_def)
  have g: "\<forall>n\<in>set (notifications three_notes).
     close_raises gerror_env n = None \<or> close_raises gerror_env n = Some GError"
    by (simp add: h gerror_env_close)
  have d: "\<forall>n\<in>set (notifications three_notes).
     close_raises demo_env n = None \<or> close_raises demo_env n = Some GError"
    "\<forall>n\<in>set (notifications three_notes). close_raises demo_env n = None"
    by (simp_all add: demo_env_def)
  show ?thesis
    using del_closes_until_error [OF h(1) g] del_closes_until_error [OF h(1) d(1)] d(2)
    by (simp add: h gerror_env_close teardown_def)
qed

text \<open>The claim as stated fails: when closing \<open>b\<close> raises, \<open>c\<close> is never closed, and the
  queue is not emptied.\<close>

theorem del_counterexample:
  "demo_note ''c'' \<notin> set (closed_notes (snd (del_service gerror_env three_notes)))
   \<and> notifications (snd (del_service gerror_env three_notes)) \<noteq> []"
proof -
  have n: "notifications three_notes = [demo_note ''a'', demo_note ''b'', demo_note ''c'']"
    "enabled three_notes" "closed_notes three_notes = []"
    by (simp_all add: three_notes_def demo_service_def)
  have d: "snd (del_service gerror_env three_notes)
      = teardown (three_notes\<lparr>enabled := False, closed_notes := [demo_note ''a'']\<rparr>)"
    by (simp add: del_service_def Let_def n gerror_env_close)
  show ?thesis by (simp add: d teardown_def n demo_note_def)
qed

subsection \<open>The icons of a notification\<close>

text \<open>
  C10. When both icons of a message are in the cache (with a non-empty path), the
  notification gets the secondary icon as its icon and the primary icon as its
  \<open>image-path\<close> hint; when only the primary icon is, it gets it as both. That notification
  is the one shown.
\<close>

theorem icon_roles:
  "(cache_get s (msg2icon e (Some body)) = Some p1 \<and> p1 \<noteq> [] \<and>
    cache_get s (msg2secondary_icon e (Some body)) = Some p2 \<and> p2 \<noteq> [] \<longrightarrow>
      get_icons e s body = (Some p2, Some p1) \<and>
      icon (build_note e s body) = Some p2 \<and> image_path (build_note e s body) = Some p1)
   \<and> (cache_get s (msg2icon e (Some body)) = Some p1 \<and> p1 \<noteq> [] \<and>
    \<not> truthy (cache_get s (msg2secondary_icon e (Some body))) \<longrightarrow>
      get_icons e s body = (Some p1, Some p1) \<and>
      icon (build_note e s body) = Some p1 \<and> image_path (build_note e s body) = Some p1)
   \<and> (show_raises e (build_note e s body) = None \<longrightarrow>
      shown (display_notification e s body) = shown s @ [build_note e s body])"
  by (auto simp: get_icons_def build_note_def truthy_def Let_def display_as_push push_shown
      logmsg_fields split: prod.splits)

theorem icon_roles_witness:
  "cache_get both_icons (msg2icon demo_env (Some ''x'')) = Some ''/tmp/c/1''
   \<and> cache_get both_icons (msg2secondary_icon demo_env (Some ''x'')) = Some ''/tmp/c/2''
   \<and> icon (build_note demo_env both_icons ''x'') = Some ''/tmp/c/2''
   \<and> image_path (build_note demo_env both_icons ''x'') = Some ''/tmp/c/1''
   \<and> cache_get primary_icon (msg2icon demo_env (Some ''x'')) = Some ''/tmp/c/1''
   \<and> \<not> truthy (cache_get primary_icon (msg2secondary_icon demo_env (Some ''x'')))
   \<and> icon (build_note demo_env primary_icon ''x'') = Some ''/tmp/c/1''
   \<and> image_path (build_note demo_env primary_icon ''x'') = Some ''/tmp/c/1''
   \<and> show_raises demo_env (build_note demo_env both_icons ''x'') = None
   \<and> shown (display_notification demo_env both_icons ''x'')
       = [build_note demo_env both_icons ''x'']"
proof -
  have a: "cache_get both_icons (msg2icon demo_env (Some ''x'')) = Some ''/tmp/c/1''"
    "cache_get both_icons (msg2secondary_icon demo_env (Some ''x'')) = Some ''/tmp/c/2''"
    "cache_get primary_icon (msg2icon demo_env (Some ''x'')) = Some ''/tmp/c/1''"
    "\<not> truthy (cache_get primary_icon (msg2secondary_icon demo_env (Some ''x'')))"
    "shown both_icons = []"
    by (simp_all add: cache_get_def truthy_def both_icons_def primary_icon_def demo_env_def
        demo_service_def)
  have r: "show_raises demo_env n = None" for n by (simp add: demo_env_def)
  show ?thesis
    using icon_roles [of both_icons demo_env "''x''" "''/tmp/c/1''" "''/tmp/c/2''"]
      icon_roles [of primary_icon demo_env "''x''" "''/tmp/c/1''" "''/tmp/c/2''"] a r
    by simp
qed

subsection \<open>Routing\<close>

lemma openid_effects:
  "openid e s = (r, s') \<Longrightarrow>
   signals s' = signals s \<and> shown s' = shown s \<and> notifications s' = notifications s \<and>
   pending s' = pending s \<and> fmn_url s' = fmn_url s \<and>
   preferences_cache s' = preferences_cache s \<and> valid_paths_cache s' = valid_paths_cache s"
  by (auto simp: openid_def Let_def split: if_splits sum.splits)

lemma preferences_effects:
  "preferences e s = (r, s') \<Longrightarrow>
   signals s' = signals s \<and> shown s' = shown s \<and> notifications s' = notifications s \<and>
   pending s' = pending s"
  by (auto simp: preferences_def Let_def logmsg_def
      split: if_splits sum.splits prod.splits option.splits dest!: openid_effects)

lemma valid_paths_effects:
  "valid_paths e s = (r, s') \<Longrightarrow>
   signals s' = signals s \<and> shown s' = shown s \<and> notifications s' = notifications s \<and>
   pending s' = pending s"
  by (auto simp: valid_paths_def split: if_splits)

lemma invalidate_effects:
  "invalidate_on_change e s msg tp = (r, s') \<Longrightarrow>
   signals s' = signals s \<and> shown s' = shown s \<and> notifications s' = notifications s \<and>
   pending s' = pending s"
  by (auto simp: invalidate_on_change_def logmsg_def
      split: if_splits sum.splits prod.splits option.splits dest!: openid_effects)

lemma server_recipients_effects:
  "server_recipients e s msg tp = (r, s') \<Longrightarrow>
   signals s' = signals s \<and> shown s' = shown s \<and> notifications s' = notifications s \<and>
   pending s' = pending s"
  by (auto simp: server_recipients_def split: sum.splits prod.splits
      dest!: invalidate_effects preferences_effects valid_paths_effects)

lemma find_None_all: "(\<forall>x\<in>set xs. \<not> P x) \<Longrightarrow> find P xs = None"
  by (simp add: find_None_iff)

lemma preferences_failed:
  assumes "no_preferences s" and "openid e s = (Inr oid, s1)"
    and "\<not> ok (http_get e (fmn_url s @ oid @ ''/desktop/''))"
  shows "preferences e s =
     (Inr [], logmsg Warning ''Failed with response''
        (logmsg Info (''Getting preferences from '' @ fmn_url s @ oid @ ''/desktop/'') s1))"
  using assms openid_effects [OF assms(2)]
  by (simp add: preferences_def Let_def)

lemma demo_openid:
  "fmn_openid s = ''alice.id.fedoraproject.org'' \<Longrightarrow>
   openid e s = (Inr ''alice.id.fedoraproject.org'', s)"
  by (simp add: openid_def)

lemma remote_recipients:
  "fst (server_recipients demo_env remote_daemon ''low'' ''org.koji.build'') = Inr []"
proof -
  have o: "openid demo_env remote_daemon = (Inr ''alice.id.fedoraproject.org'', remote_daemon)"
    by (rule demo_openid) (simp add: remote_daemon_def demo_service_def)
  have n: "no_preferences remote_daemon"
    by (simp add: no_preferences_def remote_daemon_def demo_service_def)
  have k: "\<not> ok (http_get demo_env u)" for u by (simp add: demo_env_def)
  have i: "invalidate_on_change demo_env remote_daemon ''low'' ''org.koji.build''
     = (Inr (), remote_daemon)"
    by (simp add: invalidate_on_change_def)
  have r: "recipients demo_env [] b paths = []" for b paths by (simp add: demo_env_def)
  show ?thesis
    by (simp add: server_recipients_def i preferences_failed [OF n o k] r split: prod.splits)
qed

text \<open>
  C1. In local-filter mode, when no custom filter and no service filter matches, and in
  remote-preference mode, when the recipients found for the message are none, \<open>consume\<close>
  returns normally and has emitted no bus signal, shown no notification, and neither
  queued nor put off one.
\<close>

theorem consume_no_match_is_silent:
  "(\<not> use_server_prefs s
      \<and> (\<forall>f\<in>set (filters s). \<not> filter_match e f (m_body m) (msg2processor e (m_body m)))
      \<and> (\<forall>p\<in>set (service_filters s). \<not> prefix_match e p (m_topic m))
     \<or> use_server_prefs s
      \<and> fst (server_recipients e s (m_body m) (m_topic m)) = Inr [])
   \<longrightarrow> fst (consume e s m) = Inr ()
     \<and> signals (snd (consume e s m)) = signals s
     \<and> shown (snd (consume e s m)) = shown s
     \<and> notifications (snd (consume e s m)) = notifications s
     \<and> pending (snd (consume e s m)) = pending s"
proof (intro impI, elim disjE conjE)
  assume a: "\<not> use_server_prefs s"
    "\<forall>f\<in>set (filters s). \<not> filter_match e f (m_body m) (msg2processor e (m_body m))"
    "\<forall>p\<in>set (service_filters s). \<not> prefix_match e p (m_topic m)"
  have "consume e s m =
     (Inr (), logmsg Debug (''Message to '' @ m_topic m @ '' didn't match filters'') s)"
    using a(1) find_None_all [OF a(2)] find_None_all [OF a(3)]
    by (simp add: consume_def Let_def)
  then show "fst (consume e s m) = Inr ()
     \<and> signals (snd (consume e s m)) = signals s
     \<and> shown (snd (consume e s m)) = shown s
     \<and> notifications (snd (consume e s m)) = notifications s
     \<and> pending (snd (consume e s m)) = pending s"
    by (simp add: logmsg_fields)
next
  assume b: "use_server_prefs s" "fst (server_recipients e s (m_body m) (m_topic m)) = Inr []"
  obtain s1 where s1: "server_recipients e s (m_body m) (m_topic m) = (Inr [], s1)"
    using b(2) by (cases "server_recipients e s (m_body m) (m_topic m)") auto
  have "consume e s m =
     (Inr (), logmsg Debug (''Message to '' @ m_topic m @ '' didn't match filters'') s1)"
    using b(1) s1 by (simp add: consume_def Let_def)
  then show "fst (consume e s m) = Inr ()
     \<and> signals (snd (consume e s m)) = signals s
     \<and> shown (snd (consume e s m)) = shown s
     \<and> notifications (snd (consume e s m)) = notifications s
     \<and> pending (snd (consume e s m)) = pending s"
    using server_recipients_effects [OF s1] by (simp add: logmsg_fields)
qed

theorem consume_no_match_is_silent_witness:
  "\<not> use_server_prefs local_daemon
   \<and> filters local_daemon = [\<lparr>cname = ''urgent'', csettings = []\<rparr>]
   \<and> \<not> filter_match demo_env \<lparr>cname = ''urgent'', csettings = []\<rparr> ''low'' ''bodhi''
   \<and> service_filters local_daemon = [''org.bodhi'']
   \<and> \<not> prefix_match demo_env ''org.bodhi'' ''org.koji.build''
   \<and> fst (consume demo_env local_daemon quiet_message) = Inr ()
   \<and> signals (snd (consume demo_env local_daemon quiet_message)) = []
   \<and> shown (snd (consume demo_env local_daemon quiet_message)) = []
   \<and> pending (snd (consume demo_env local_daemon quiet_message)) = []
   \<and> use_server_prefs remote_daemon
   \<and> fst (server_recipients demo_env remote_daemon ''low'' ''org.koji.build'') = Inr []
   \<and> fst (consume demo_env remote_daemon quiet_message) = Inr ()
   \<and> signals (snd (consume demo_env remote_daemon quiet_message)) = []
   \<and> shown (snd (consume demo_env remote_daemon quiet_message)) = []
   \<and> pending (snd (consume demo_env remote_daemon quiet_message)) = []"
proof -
  have l: "\<not> use_server_prefs local_daemon"
    "filters local_daemon = [\<lparr>cname = ''urgent'', csettings = []\<rparr>]"
    "service_filters local_daemon = [''org.bodhi'']"
    "signals local_daemon = []" "shown local_daemon = []" "pending local_daemon = []"
    by (simp_all add: local_daemon_def demo_service_def)
  have r: "use_server_prefs remote_daemon"
    "signals remote_daemon = []" "shown remote_daemon = []" "pending remote_daemon = []"
    by (simp_all add: remote_daemon_def demo_service_def)
  have m: "m_body quiet_message = ''low''" "m_topic quiet_message = ''org.koji.build''"
    by (simp_all add: quiet_message_def)
  have f: "\<not> filter_match demo_env c ''low'' p"
    "\<not> prefix_match demo_env ''org.bodhi'' ''org.koji.build''" for c p
    by (simp_all add: demo_env_def)
  show ?thesis
    using consume_no_match_is_silent [of local_daemon demo_env quiet_message]
      consume_no_match_is_silent [of remote_daemon demo_env quiet_message]
      remote_recipients
    by (simp add: l r m f)
qed

subsection \<open>Fetching the preferences\<close>

text \<open>
  C7, as the code has it. When the preferences have to be fetched and the response is not
  a success, \<open>preferences\<close> logs a warning and returns the empty list, and caches nothing;
  the recipients of a message are then computed from the empty list. A success response
  whose body is not the expected document is not handled: the exception of \<open>json()\<close> or
  of \<open>repopulate_functions\<close> leaves \<open>preferences\<close> and \<open>consume\<close>.
\<close>

theorem failed_fetch_gives_no_preferences:
  assumes "no_preferences s" and "openid e s = (Inr oid, s1)"
    and "\<not> ok (http_get e (fmn_url s @ oid @ ''/desktop/''))"
  shows "preferences e s =
     (Inr [], logmsg Warning ''Failed with response''
        (logmsg Info (''Getting preferences from '' @ fmn_url s @ oid @ ''/desktop/'') s1))
   \<and> preferences_cache (snd (preferences e s)) = preferences_cache s
   \<and> (\<not> contains ''.fmn.'' tp \<longrightarrow>
        fst (server_recipients e s msg tp) =
          Inr (recipients e [] msg
                (if valid_paths_cache s = [] then load_rules e else valid_paths_cache s)))"
proof -
  note p = preferences_failed [OF assms]
  have c: "preferences_cache s1 = preferences_cache s" "valid_paths_cache s1 = valid_paths_cache s"
    using openid_effects [OF assms(2)] by simp_all
  have i: "\<not> contains ''.fmn.'' tp \<Longrightarrow> invalidate_on_change e s msg tp = (Inr (), s)"
    by (simp add: invalidate_on_change_def)
  show ?thesis
    by (simp add: p c logmsg_def server_recipients_def i valid_paths_def)
qed

theorem failed_fetch_gives_no_preferences_witness:
  "no_preferences demo_service
   \<and> openid demo_env demo_service = (Inr ''alice.id.fedoraproject.org'', demo_service)
   \<and> \<not> ok (http_get demo_env (fmn_url demo_service @ ''alice.id.fedoraproject.org'' @ ''/desktop/''))
   \<and> fst (preferences demo_env demo_service) = Inr []
   \<and> log_lines (snd (preferences demo_env demo_service)) =
       [(Info, ''Getting preferences from https://fmn/alice.id.fedoraproject.org/desktop/''),
        (Warning, ''Failed with response'')]
   \<and> \<not> contains ''.fmn.'' ''org.koji.build''
   \<and> fst (server_recipients demo_env demo_service ''low'' ''org.koji.build'') = Inr []"
proof -
  have o: "openid demo_env demo_service = (Inr ''alice.id.fedoraproject.org'', demo_service)"
    by (rule demo_openid) (simp add: demo_service_def)
  have n: "no_preferences demo_service" by (simp add: no_preferences_def demo_service_def)
  have k: "\<not> ok (http_get demo_env u)" for u by (simp add: demo_env_def)
  have r: "recipients demo_env [] b paths = []" for b paths by (simp add: demo_env_def)
  have d: "fmn_url demo_service = ''https://fmn/''" "log_lines demo_service = []"
    by (simp_all add: demo_service_def)
  show ?thesis
    using failed_fetch_gives_no_preferences [OF n o k, of "''org.koji.build''" "''low''"] n o k
    by (simp add: r d logmsg_def)
qed

text \<open>The claim as stated fails on a success response whose body is not JSON:
  \<open>preferences\<close> raises, and so does \<open>consume\<close>.\<close>

theorem malformed_payload_counterexample:
  "fst (preferences malformed_env demo_service) = Inl ValueError
   \<and> fst (consume malformed_env remote_daemon quiet_message) = Inl ValueError"
proof -
  have o: "openid malformed_env s = (Inr ''alice.id.fedoraproject.org'', s)"
    if "fmn_openid s = ''alice.id.fedoraproject.org''" for s :: "string service"
    using that by (rule demo_openid)
  have h: "http_get malformed_env u = \<lparr>ok = True, json = None\<rparr>" for u
    by (simp add: malformed_env_def)
  have p: "fst (preferences malformed_env s) = Inl ValueError"
    if "fmn_openid s = ''alice.id.fedoraproject.org''" "no_preferences s" for s :: "string service"
    using that by (simp add: preferences_def o h Let_def)
  have d: "fmn_openid demo_service = ''alice.id.fedoraproject.org''" "no_preferences demo_service"
    "fmn_openid remote_daemon = ''alice.id.fedoraproject.org''" "no_preferences remote_daemon"
    "use_server_prefs remote_daemon"
    by (simp_all add: demo_service_def remote_daemon_def no_preferences_def)
  have i: "invalidate_on_change malformed_env remote_daemon ''low'' ''org.koji.build''
     = (Inr (), remote_daemon)"
    by (simp add: invalidate_on_change_def)
  obtain s2 where q: "preferences malformed_env remote_daemon = (Inl ValueError, s2)"
    using p [OF d(3,4)] by (cases "preferences malformed_env remote_daemon") auto
  have s: "server_recipients malformed_env remote_daemon ''low'' ''org.koji.build''
     = (Inl ValueError, s2)"
    by (simp add: server_recipients_def i q)
  have c: "fst (consume malformed_env remote_daemon quiet_message) = Inl ValueError"
    using d(5) by (simp add: consume_def Let_def quiet_message_def s)
  show ?thesis using p [OF d(1,2)] c by simp
qed

subsection \<open>A change of the filter settings\<close>

lemma logmsg_ef:
  "logmsg l t (s\<lparr>enabled_filters := x\<rparr>) = (logmsg l t s)\<lparr>enabled_filters := x\<rparr>"
  by (simp add: logmsg_def)

lemma openid_ef:
  "openid e (s\<lparr>enabled_filters := x\<rparr>) = apsnd (\<lambda>t. t\<lparr>enabled_filters := x\<rparr>) (openid e s)"
  by (simp add: openid_def Let_def split: sum.splits)

lemma preferences_ef:
  "preferences e (s\<lparr>enabled_filters := x\<rparr>)
     = apsnd (\<lambda>t. t\<lparr>enabled_filters := x\<rparr>) (preferences e s)"
  by (cases "openid e s")
     (simp add: preferences_def no_preferences_def openid_ef Let_def logmsg_def
       split: sum.splits option.splits)

lemma valid_paths_ef:
  "valid_paths e (s\<lparr>enabled_filters := x\<rparr>)
     = apsnd (\<lambda>t. t\<lparr>enabled_filters := x\<rparr>) (valid_paths e s)"
  by (simp add: valid_paths_def)

lemma invalidate_ef:
  "invalidate_on_change e (s\<lparr>enabled_filters := x\<rparr>) msg tp
     = apsnd (\<lambda>t. t\<lparr>enabled_filters := x\<rparr>) (invalidate_on_change e s msg tp)"
  by (cases "openid e s")
     (simp add: invalidate_on_change_def openid_ef logmsg_def split: sum.splits option.splits)

lemma server_recipients_ef:
  "server_recipients e (s\<lparr>enabled_filters := x\<rparr>) msg tp
     = apsnd (\<lambda>t. t\<lparr>enabled_filters := x\<rparr>) (server_recipients e s msg tp)"
proof -
  obtain r1 s1 where i: "invalidate_on_change e s msg tp = (r1, s1)" by fastforce
  obtain r2 s2 where p: "preferences e s1 = (r2, s2)" by fastforce
  obtain r3 s3 where v: "valid_paths e s2 = (r3, s3)" by fastforce
  show ?thesis
    by (simp add: server_recipients_def invalidate_ef preferences_ef valid_paths_ef i p v
        split: sum.splits)
qed

lemma build_note_ef: "build_note e (s\<lparr>enabled_filters := x\<rparr>) b = build_note e s b"
  by (rule build_note_cong) simp

lemma schedule_ef:
  "schedule_expiry n (s\<lparr>enabled_filters := x\<rparr>) = (schedule_expiry n s)\<lparr>enabled_filters := x\<rparr>"
  by (simp add: schedule_expiry_def logmsg_def)

lemma push_ef:
  "push e n (s\<lparr>enabled_filters := x\<rparr>) = (push e n s)\<lparr>enabled_filters := x\<rparr>"
  by (simp add: push_def logmsg_def schedule_expiry_def Let_def split: option.splits)

lemma display_ef:
  "display_notification e (s\<lparr>enabled_filters := x\<rparr>) b
     = (display_notification e s b)\<lparr>enabled_filters := x\<rparr>"
  by (simp add: display_as_push build_note_ef logmsg_ef push_ef)

lemma get_icon_ef:
  "get_icon e (s\<lparr>enabled_filters := x\<rparr>) ic
     = apfst (\<lambda>t. t\<lparr>enabled_filters := x\<rparr>) (get_icon e s ic)"
  by (simp add: get_icon_def Let_def logmsg_def)

lemma fetch_one_ef:
  "fetch_one e ic (s\<lparr>enabled_filters := x\<rparr>)
     = apfst (\<lambda>t. t\<lparr>enabled_filters := x\<rparr>) (fetch_one e ic s)"
  by (cases "get_icon e s (the ic)") (simp add: fetch_one_def get_icon_ef split: option.splits)

lemma fetch_icons_ef:
  "fetch_icons e (s\<lparr>enabled_filters := x\<rparr>) msg
     = apfst (\<lambda>t. t\<lparr>enabled_filters := x\<rparr>) (fetch_icons e s msg)"
proof -
  obtain s1 d1 where a: "fetch_one e (msg2icon e (get_body e msg)) s = (s1, d1)" by fastforce
  obtain s2 d2 where b: "fetch_one e (msg2secondary_icon e (get_body e msg)) s1 = (s2, d2)"
    by fastforce
  show ?thesis by (simp add: fetch_icons_def Let_def fetch_one_ef a b)
qed

lemma notify_ef:
  "notify e (s\<lparr>enabled_filters := x\<rparr>) msg
     = apsnd (\<lambda>t. t\<lparr>enabled_filters := x\<rparr>) (notify e s msg)"
proof -
  obtain s1 d where a: "fetch_icons e s msg = (s1, d)" by fastforce
  show ?thesis
    by (simp add: notify_def fetch_icons_ef a display_ef split: option.splits)
qed

lemma dispatch_ef:
  "dispatch e (s\<lparr>enabled_filters := x\<rparr>) msg tp
     = apsnd (\<lambda>t. t\<lparr>enabled_filters := x\<rparr>) (dispatch e s msg tp)"
proof (cases "emit_dbus_signals s")
  case True
  have c: "s\<lparr>enabled_filters := x, signals := signals s @ [(tp, dumps e msg)]\<rparr>
      = (s\<lparr>signals := signals s @ [(tp, dumps e msg)]\<rparr>)\<lparr>enabled_filters := x\<rparr>"
    by simp
  show ?thesis using True
    by (simp add: dispatch_def) (simp only: c notify_ef)
next
  case False
  then show ?thesis by (simp add: dispatch_def notify_ef)
qed

lemma consume_ef:
  "consume e (s\<lparr>enabled_filters := x\<rparr>) m
     = apsnd (\<lambda>t. t\<lparr>enabled_filters := x\<rparr>) (consume e s m)"
proof (cases "use_server_prefs s")
  case True
  obtain r1 s1 where a: "server_recipients e s (m_body m) (m_topic m) = (r1, s1)" by fastforce
  show ?thesis using True
    by (simp add: consume_def Let_def server_recipients_ef a dispatch_ef logmsg_ef
        split: sum.splits)
next
  case False
  then show ?thesis
    by (simp add: consume_def Let_def dispatch_ef logmsg_ef split: option.splits)
qed

text \<open>
  C9. A change of \<open>filter-settings\<close> only refreshes the list of enabled filter names that
  the daemon keeps; the loaded custom filters and the service filters are what they were,
  and \<open>consume\<close> does to every message what it did before.
\<close>

theorem filter_settings_change_is_inert:
  "settings_changed e s settings ''filter-settings''
      = (Inr (), s\<lparr>enabled_filters := gs_enabled_filters settings\<rparr>)
   \<and> filters (snd (settings_changed e s settings ''filter-settings'')) = filters s
   \<and> service_filters (snd (settings_changed e s settings ''filter-settings'')) = service_filters s
   \<and> consume e (snd (settings_changed e s settings ''filter-settings'')) m
      = apsnd (\<lambda>t. t\<lparr>enabled_filters := gs_enabled_filters settings\<rparr>) (consume e s m)"
  by (simp add: settings_changed_def Let_def consume_ef)

subsection \<open>A change of the enabled filters\<close>

lemma fold_remove1_Cons:
  "\<forall>y\<in>set ys. y \<noteq> x \<Longrightarrow> fold remove1 ys (x # r) = x # fold remove1 ys r"
  by (induction ys arbitrary: r) auto

lemma fold_remove1_filter: "fold remove1 (filter P xs) xs = filter (\<lambda>x. \<not> P x) xs"
proof (induction xs)
  case Nil
  then show ?case by simp
next
  case (Cons x xs)
  show ?case
  proof (cases "P x")
    case True
    then show ?thesis using Cons by simp
  next
    case False
    have "\<forall>y\<in>set (filter P xs). y \<noteq> x" using False by auto
    then show ?thesis using False Cons by (simp add: fold_remove1_Cons)
  qed
qed

lemma update_filters_frame_both:
  "enabled_filters (snd (update_filters parsed before names s)) = enabled_filters s \<and>
   service_filters (snd (update_filters parsed before names s)) = service_filters s"
  by (induction parsed before names s rule: update_filters.induct)
     (auto simp: Let_def logmsg_def split: settings_json.splits)

lemma update_filters_frame:
  "enabled_filters (snd (update_filters parsed before names s)) = enabled_filters s"
  "service_filters (snd (update_filters parsed before names s)) = service_filters s"
  by (simp_all add: update_filters_frame_both)

lemma update_filters_filters:
  "fst (update_filters (Object cfg) before names s) = Inr () \<and>
   filters (snd (update_filters (Object cfg) before names s)) =
     [f \<leftarrow> filters s. \<not> (cname f \<in> set names \<and> cname f \<in> set before
                             \<and> cname f \<notin> set (enabled_filters s))]
     @ map (instantiate cfg) [n \<leftarrow> names. n \<notin> set before \<and> n \<in> set (enabled_filters s)]"
proof (induction names arbitrary: s)
  case Nil
  then show ?case by simp
next
  case (Cons name rest)
  show ?case
    by (auto simp: Cons Let_def logmsg_def fold_remove1_filter instantiate_def intro!: filter_cong)
qed

lemma reload_filters:
  assumes "gs_filter_settings settings = Object cfg"
  shows "fst (settings_changed e s settings ''enabled-filters'') = Inr ()"
    and "enabled_filters (snd (settings_changed e s settings ''enabled-filters''))
          = gs_enabled_filters settings"
    and "service_filters (snd (settings_changed e s settings ''enabled-filters''))
          = map snd [p \<leftarrow> processors e. fst p \<in> set (gs_enabled_filters settings)]"
    and "filters (snd (settings_changed e s settings ''enabled-filters''))
          = [f \<leftarrow> filters s. \<not> (cname f \<in> set (all_filters e)
                                  \<and> cname f \<notin> set (gs_enabled_filters settings))]
            @ map (instantiate cfg)
                [n \<leftarrow> all_filters e. n \<notin> set (map cname (filters s))
                                    \<and> n \<in> set (gs_enabled_filters settings)]"
  using assms
  by (auto simp: settings_changed_def Let_def update_filters_frame update_filters_filters logmsg_def
      intro!: filter_cong)

text \<open>
  C8, as the code has it. When \<open>enabled-filters\<close> changes and the persisted
  \<open>filter-settings\<close> string is a JSON object, the loaded filters whose class is known and
  no longer enabled are dropped, the known classes that are enabled and not loaded are
  instantiated, each with its own string of that object (the empty string when it has
  none), and appended in the order of \<open>all_filters\<close>, and the service filters become the
  prefixes of the enabled processors. If the loaded filters were instances of known
  classes, the loaded names are afterwards exactly the enabled known names; if no name was
  loaded twice, none is afterwards.
\<close>

theorem enabled_filters_change_reconciles:
  assumes "gs_filter_settings settings = Object cfg"
  shows "fst (settings_changed e s settings ''enabled-filters'') = Inr ()
    \<and> service_filters (snd (settings_changed e s settings ''enabled-filters''))
          = map snd [p \<leftarrow> processors e. fst p \<in> set (gs_enabled_filters settings)]
    \<and> filters (snd (settings_changed e s settings ''enabled-filters''))
          = [f \<leftarrow> filters s. \<not> (cname f \<in> set (all_filters e)
                                  \<and> cname f \<notin> set (gs_enabled_filters settings))]
            @ map (\<lambda>n. \<lparr>cname = n, csettings = (case cfg n of None \<Rightarrow> [] | Some c \<Rightarrow> c)\<rparr>)
                [n \<leftarrow> all_filters e. n \<notin> set (map cname (filters s))
                                    \<and> n \<in> set (gs_enabled_filters settings)]
    \<and> (set (map cname (filters s)) \<subseteq> set (all_filters e) \<longrightarrow>
         set (map cname (filters (snd (settings_changed e s settings ''enabled-filters''))))
           = set (all_filters e) \<inter> set (gs_enabled_filters settings))
    \<and> (distinct (all_filters e) \<and> distinct (map cname (filters s)) \<longrightarrow>
         distinct (map cname (filters (snd (settings_changed e s settings ''enabled-filters'')))))"
proof -
  note r = reload_filters [OF assms, of e s]
  have i: "instantiate cfg = (\<lambda>n. \<lparr>cname = n, csettings = (case cfg n of None \<Rightarrow> [] | Some c \<Rightarrow> c)\<rparr>)"
    by (rule ext) (simp add: instantiate_def)
  have n: "set (map cname (filters s)) \<subseteq> set (all_filters e) \<Longrightarrow>
     set (map cname (filters (snd (settings_changed e s settings ''enabled-filters''))))
       = set (all_filters e) \<inter> set (gs_enabled_filters settings)"
    unfolding r(4) by (auto simp: comp_def instantiate_def)
  have d: "distinct (map cname (filters (snd (settings_changed e s settings ''enabled-filters''))))"
    if "distinct (all_filters e)" "distinct (map cname (filters s))"
    unfolding r(4) using that
    by (auto simp: comp_def distinct_map_filter instantiate_def)
  show ?thesis using r(1,3) r(4) [unfolded i] n d by simp
qed

theorem enabled_filters_change_reconciles_witness:
  "gs_filter_settings new_settings = Object [''quiet'' \<mapsto> ''p'']
   \<and> set (map cname (filters urgent_daemon)) \<subseteq> set (all_filters demo_env)
   \<and> distinct (all_filters demo_env) \<and> distinct (map cname (filters urgent_daemon))
   \<and> fst (settings_changed demo_env urgent_daemon new_settings ''enabled-filters'') = Inr ()
   \<and> filters (snd (settings_changed demo_env urgent_daemon new_settings ''enabled-filters''))
       = [\<lparr>cname = ''quiet'', csettings = ''p''\<rparr>, \<lparr>cname = ''loud'', csettings = []\<rparr>]
   \<and> service_filters (snd (settings_changed demo_env urgent_daemon new_settings ''enabled-filters''))
       = [''org.koji'']"
proof -
  have g: "gs_filter_settings new_settings = Object [''quiet'' \<mapsto> ''p'']"
    "gs_enabled_filters new_settings = [''quiet'', ''loud'', ''koji'']"
    by (simp_all add: new_settings_def)
  have d: "all_filters demo_env = [''urgent'', ''quiet'', ''loud'']"
    "processors demo_env = [(''bodhi'', ''org.bodhi''), (''koji'', ''org.koji'')]"
    "filters urgent_daemon = [\<lparr>cname = ''urgent'', csettings = ''old''\<rparr>]"
    by (simp_all add: demo_env_def urgent_daemon_def demo_service_def)
  show ?thesis
    using enabled_filters_change_reconciles [OF g(1), of demo_env urgent_daemon]
    by (simp add: g d)
qed

text \<open>The claim as stated, for every change, fails when the \<open>filter-settings\<close> string is
  not JSON: the change raises after the service filters have been replaced, \<open>urgent\<close>,
  no longer enabled, stays loaded, and \<open>quiet\<close> and \<open>loud\<close> are not instantiated.\<close>

theorem enabled_filters_change_counterexample:
  "fst (settings_changed demo_env urgent_daemon broken_settings ''enabled-filters'')
      = Inl ValueError
   \<and> filters (snd (settings_changed demo_env urgent_daemon broken_settings ''enabled-filters''))
      = [\<lparr>cname = ''urgent'', csettings = ''old''\<rparr>]
   \<and> service_filters
        (snd (settings_changed demo_env urgent_daemon broken_settings ''enabled-filters''))
      = [''org.koji'']"
  by (simp add: settings_changed_def Let_def logmsg_def broken_settings_def new_settings_def
      urgent_daemon_def demo_service_def demo_env_def)

subsection \<open>Icons with the same content\<close>

lemma icon_downloaded_cache:
  "icon_cache (icon_downloaded e s u f (Callback (Some c))) =
     (case icon_cache s (hash_bytes e c) of
        Some p \<Rightarrow> (icon_cache s)(u \<mapsto> p)
      | None \<Rightarrow> (icon_cache s)(u \<mapsto> f, hash_bytes e c \<mapsto> f))"
  by (simp add: icon_downloaded_def cache_icon_def Let_def split: option.splits)

lemma icon_downloaded_files:
  "cache_files (icon_downloaded e s u f (Callback (Some c))) =
     (case icon_cache s (hash_bytes e c) of
        Some p \<Rightarrow> (cache_files s)(f := None)
      | None \<Rightarrow> (cache_files s)(f \<mapsto> c))"
  by (simp add: icon_downloaded_def cache_icon_def Let_def split: option.splits)

lemma get_icon_download:
  "icon_cache s u = None \<Longrightarrow> cache_files s (cache_dir e @ ''/'' @ icon_id e u) = None \<Longrightarrow>
   get_icon e s u =
     (logmsg Debug (''Downloading icon: '' @ u) s, Some (u, cache_dir e @ ''/'' @ icon_id e u))"
  by (simp add: get_icon_def truthy_def Let_def)

lemma get_icon_cached:
  "icon_cache s u = Some p \<Longrightarrow> p \<noteq> [] \<Longrightarrow> get_icon e s u = (s, None)"
  by (simp add: get_icon_def truthy_def)

lemma resolve_download:
  "icon_cache s u = None \<Longrightarrow> cache_files s (cache_dir e @ ''/'' @ icon_id e u) = None \<Longrightarrow>
   resolve e u outcome s =
     icon_downloaded e (logmsg Debug (''Downloading icon: '' @ u) s) u
       (cache_dir e @ ''/'' @ icon_id e u) outcome"
  by (simp add: resolve_def get_icon_download)

lemma resolve_cached:
  "icon_cache s u = Some p \<Longrightarrow> p \<noteq> [] \<Longrightarrow> resolve e u outcome s = s"
  by (simp add: resolve_def get_icon_cached)

lemma resolve_two:
  fixes e :: "'b env" and s :: "'b service" and a b :: string and c :: bytes
  defines "fa \<equiv> cache_dir e @ ''/'' @ icon_id e a"
    and "fb \<equiv> cache_dir e @ ''/'' @ icon_id e b"
    and "h \<equiv> hash_bytes e c"
  defines "p \<equiv> (case icon_cache s h of None \<Rightarrow> fa | Some p0 \<Rightarrow> p0)"
  defines "s' \<equiv> resolve e b (Callback (Some c)) (resolve e a (Callback (Some c)) s)"
  assumes ab: "a \<noteq> b" and ca: "icon_cache s a = None" and cb: "icon_cache s b = None"
    and na: "cache_files s fa = None" and nb: "cache_files s fb = None"
    and ids: "icon_id e a \<noteq> icon_id e b"
    and inv1: "\<forall>q. cache_files s q = Some c \<longrightarrow> icon_cache s h = Some q"
    and inv2: "\<forall>q. icon_cache s h = Some q \<longrightarrow> cache_files s q = Some c"
  shows "icon_cache s' a = Some p \<and> icon_cache s' b = Some p \<and> cache_files s' p = Some c
     \<and> (\<forall>q. cache_files s' q = Some c \<longrightarrow> q = p) \<and> cache_files s' fb = None"
proof -
  define s1 where "s1 = resolve e a (Callback (Some c)) s"
  have fab: "fa \<noteq> fb" using ids by (simp add: fa_def fb_def)
  have fne: "fa \<noteq> []" by (simp add: fa_def)
  have s1: "s1 = icon_downloaded e (logmsg Debug (''Downloading icon: '' @ a) s) a fa (Callback (Some c))"
    unfolding s1_def fa_def using ca na by (simp add: resolve_download fa_def)
  have c1: "icon_cache s1 = (case icon_cache s h of Some p0 \<Rightarrow> (icon_cache s)(a \<mapsto> p0)
                | None \<Rightarrow> (icon_cache s)(a \<mapsto> fa, h \<mapsto> fa))"
    and f1: "cache_files s1 = (case icon_cache s h of Some p0 \<Rightarrow> (cache_files s)(fa := None)
                | None \<Rightarrow> (cache_files s)(fa \<mapsto> c))"
    unfolding s1
    by (simp_all add: icon_downloaded_cache icon_downloaded_files logmsg_fields h_def
        cong: option.case_cong)
  show ?thesis
  proof (cases "icon_cache s h")
    case None
    have pp: "p = fa" using None by (simp add: p_def)
    have nofile: "cache_files s q \<noteq> Some c" for q using inv1 None by auto
    have c1': "icon_cache s1 = (icon_cache s)(a \<mapsto> fa, h \<mapsto> fa)"
      and f1': "cache_files s1 = (cache_files s)(fa \<mapsto> c)"
      using c1 f1 None by simp_all
    show ?thesis
    proof (cases "b = h")
      case True
      have "icon_cache s1 b = Some fa" using c1' True by simp
      then have e: "s' = s1" unfolding s'_def s1_def[symmetric] using fne by (simp add: resolve_cached)
      have 1: "icon_cache s' a = Some p" by (simp add: e c1' pp)
      have 2: "icon_cache s' b = Some p" by (simp add: e c1' pp True)
      have 3: "cache_files s' p = Some c" by (simp add: e f1' pp)
      have 4: "\<forall>q. cache_files s' q = Some c \<longrightarrow> q = p" by (simp add: e f1' pp nofile)
      have 5: "cache_files s' fb = None" using fab nb by (simp add: e f1')
      show ?thesis using 1 2 3 4 5 by blast
    next
      case False
      have b1: "icon_cache s1 b = None" "cache_files s1 fb = None"
        using False ab cb nb fab by (simp_all add: c1' f1')
      have s2: "s' = icon_downloaded e (logmsg Debug (''Downloading icon: '' @ b) s1) b fb (Callback (Some c))"
        unfolding s'_def s1_def[symmetric] fb_def using b1 by (simp add: resolve_download fb_def)
      have h1: "icon_cache s1 h = Some fa" by (simp add: c1')
      have c2: "icon_cache s' = (icon_cache s1)(b \<mapsto> fa)" and f2: "cache_files s' = (cache_files s1)(fb := None)"
        unfolding s2 using h1 by (simp_all add: icon_downloaded_cache icon_downloaded_files logmsg_fields h_def[symmetric])
      have 1: "icon_cache s' a = Some p" using ab by (simp add: c2 c1' pp)
      have 2: "icon_cache s' b = Some p" by (simp add: c2 pp)
      have 3: "cache_files s' p = Some c" using fab by (simp add: f2 f1' pp)
      have 4: "\<forall>q. cache_files s' q = Some c \<longrightarrow> q = p" by (simp add: f2 f1' pp nofile)
      have 5: "cache_files s' fb = None" by (simp add: f2)
      show ?thesis using 1 2 3 4 5 by blast
    qed
  next
    case (Some p0)
    have pp: "p = p0" using Some by (simp add: p_def)
    have ex: "cache_files s p0 = Some c" using inv2 Some by auto
    have uniq: "cache_files s q = Some c \<longrightarrow> q = p0" for q using inv1 Some by auto
    have bh: "b \<noteq> h" "a \<noteq> h" using Some cb ca by auto
    have c1': "icon_cache s1 = (icon_cache s)(a \<mapsto> p0)"
      and f1': "cache_files s1 = (cache_files s)(fa := None)"
      using c1 f1 Some by simp_all
    have b1: "icon_cache s1 b = None" "cache_files s1 fb = None"
      using ab cb nb by (simp_all add: c1' f1')
    have s2: "s' = icon_downloaded e (logmsg Debug (''Downloading icon: '' @ b) s1) b fb (Callback (Some c))"
      unfolding s'_def s1_def[symmetric] fb_def using b1 by (simp add: resolve_download fb_def)
    have h1: "icon_cache s1 h = Some p0" using Some bh by (simp add: c1')
    have c2: "icon_cache s' = (icon_cache s1)(b \<mapsto> p0)" and f2: "cache_files s' = (cache_files s1)(fb := None)"
      unfolding s2 using h1 by (simp_all add: icon_downloaded_cache icon_downloaded_files logmsg_fields h_def[symmetric])
    have pa: "p0 \<noteq> fa" "p0 \<noteq> fb" using ex na nb by auto
    have 1: "icon_cache s' a = Some p" using ab by (simp add: c2 c1' pp)
    have 2: "icon_cache s' b = Some p" by (simp add: c2 pp)
    have 3: "cache_files s' p = Some c" using pa ex by (simp add: f2 f1' pp)
    have 4: "\<forall>q. cache_files s' q = Some c \<longrightarrow> q = p" using uniq by (simp add: f2 f1' pp)
    have 5: "cache_files s' fb = None" by (simp add: f2)
    show ?thesis using 1 2 3 4 5 by blast
  qed
qed


lemma finish_two:
  fixes e :: "'b env" and t :: "'b service" and x y fx fy :: string and c :: bytes
  defines "h \<equiv> hash_bytes e c"
  defines "p \<equiv> (case icon_cache t h of None \<Rightarrow> fx | Some p0 \<Rightarrow> p0)"
  defines "s' \<equiv> icon_downloaded e (icon_downloaded e t x fx (Callback (Some c))) y fy
                  (Callback (Some c))"
  assumes xy: "x \<noteq> y" and cx: "icon_cache t x = None" and cy: "icon_cache t y = None"
    and nx: "cache_files t fx = None" and ny: "cache_files t fy = None"
    and fxy: "fx \<noteq> fy"
    and inv1: "\<forall>q. cache_files t q = Some c \<longrightarrow> icon_cache t h = Some q"
    and inv2: "\<forall>q. icon_cache t h = Some q \<longrightarrow> cache_files t q = Some c"
  shows "icon_cache s' x = Some p \<and> icon_cache s' y = Some p \<and> cache_files s' p = Some c
     \<and> (\<forall>q. cache_files s' q = Some c \<longrightarrow> q = p) \<and> cache_files s' fy = None"
proof -
  define s1 where "s1 = icon_downloaded e t x fx (Callback (Some c))"
  have s2: "s' = icon_downloaded e s1 y fy (Callback (Some c))" by (simp add: s'_def s1_def)
  show ?thesis
  proof (cases "icon_cache t h")
    case None
    have pp: "p = fx" using None by (simp add: p_def)
    have nofile: "cache_files t q \<noteq> Some c" for q using inv1 None by auto
    have c1: "icon_cache s1 = (icon_cache t)(x \<mapsto> fx, h \<mapsto> fx)"
      and f1: "cache_files s1 = (cache_files t)(fx \<mapsto> c)"
      unfolding s1_def using None
      by (simp_all add: icon_downloaded_cache icon_downloaded_files h_def[symmetric])
    have h1: "icon_cache s1 h = Some fx" by (simp add: c1)
    have c2: "icon_cache s' = (icon_cache s1)(y \<mapsto> fx)"
      and f2: "cache_files s' = (cache_files s1)(fy := None)"
      unfolding s2 using h1
      by (simp_all add: icon_downloaded_cache icon_downloaded_files h_def[symmetric])
    have 1: "icon_cache s' x = Some p" using xy by (simp add: c2 c1 pp)
    have 2: "icon_cache s' y = Some p" by (simp add: c2 pp)
    have 3: "cache_files s' p = Some c" using fxy by (simp add: f2 f1 pp)
    have 4: "\<forall>q. cache_files s' q = Some c \<longrightarrow> q = p" by (simp add: f2 f1 pp nofile)
    have 5: "cache_files s' fy = None" by (simp add: f2)
    show ?thesis using 1 2 3 4 5 by blast
  next
    case (Some p0)
    have pp: "p = p0" using Some by (simp add: p_def)
    have ex: "cache_files t p0 = Some c" using inv2 Some by auto
    have uniq: "cache_files t q = Some c \<longrightarrow> q = p0" for q using inv1 Some by auto
    have bh: "y \<noteq> h" "x \<noteq> h" using Some cx cy by auto
    have c1: "icon_cache s1 = (icon_cache t)(x \<mapsto> p0)"
      and f1: "cache_files s1 = (cache_files t)(fx := None)"
      unfolding s1_def using Some
      by (simp_all add: icon_downloaded_cache icon_downloaded_files h_def[symmetric])
    have h1: "icon_cache s1 h = Some p0" using Some bh by (simp add: c1)
    have c2: "icon_cache s' = (icon_cache s1)(y \<mapsto> p0)"
      and f2: "cache_files s' = (cache_files s1)(fy := None)"
      unfolding s2 using h1
      by (simp_all add: icon_downloaded_cache icon_downloaded_files h_def[symmetric])
    have pa: "p0 \<noteq> fx" "p0 \<noteq> fy" using ex nx ny by auto
    have 1: "icon_cache s' x = Some p" using xy by (simp add: c2 c1 pp)
    have 2: "icon_cache s' y = Some p" by (simp add: c2 pp)
    have 3: "cache_files s' p = Some c" using pa ex by (simp add: f2 f1 pp)
    have 4: "\<forall>q. cache_files s' q = Some c \<longrightarrow> q = p" using uniq by (simp add: f2 f1 pp)
    have 5: "cache_files s' fy = None" by (simp add: f2)
    show ?thesis using 1 2 3 4 5 by blast
  qed
qed

lemma both_requested:
  assumes "icon_cache s a = None" "icon_cache s b = None"
    "cache_files s (cache_dir e @ ''/'' @ icon_id e a) = None"
    "cache_files s (cache_dir e @ ''/'' @ icon_id e b) = None"
  shows "icon_cache (fst (get_icon e (fst (get_icon e s a)) b)) = icon_cache s"
    and "cache_files (fst (get_icon e (fst (get_icon e s a)) b)) = cache_files s"
  using assms by (simp_all add: get_icon_download logmsg_fields)


text \<open>
  What the cache does when it is consistent. Two different icon references \<open>a\<close> and \<open>b\<close>,
  neither cached nor on disk, with different cache file names, are downloaded once each and
  both downloads bring the same content \<open>c\<close>; before, every file with that content is the
  one registered under its hash, and a path registered under that hash holds that content.
  Then, whether the second icon is requested after the first has been cached or both are
  requested before either download comes back (in either order of completion), both
  references map to one path \<open>p\<close>, the file at \<open>p\<close> holds \<open>c\<close>, no other file does, and
  the copy downloaded last is gone.
\<close>

lemma identical_icons_consistent_cache:
  fixes e :: "'b env" and s :: "'b service" and a b :: string and c :: bytes
  defines "fa \<equiv> cache_dir e @ ''/'' @ icon_id e a"
    and "fb \<equiv> cache_dir e @ ''/'' @ icon_id e b"
    and "h \<equiv> hash_bytes e c"
  defines "t \<equiv> fst (get_icon e (fst (get_icon e s a)) b)"
  assumes ab: "a \<noteq> b" and ca: "icon_cache s a = None" and cb: "icon_cache s b = None"
    and na: "cache_files s fa = None" and nb: "cache_files s fb = None"
    and ids: "icon_id e a \<noteq> icon_id e b"
    and inv1: "\<forall>q. cache_files s q = Some c \<longrightarrow> icon_cache s h = Some q"
    and inv2: "\<forall>q. icon_cache s h = Some q \<longrightarrow> cache_files s q = Some c"
  shows
    "(let s' = resolve e b (Callback (Some c)) (resolve e a (Callback (Some c)) s);
          p = (case icon_cache s h of None \<Rightarrow> fa | Some p0 \<Rightarrow> p0)
      in icon_cache s' a = Some p \<and> icon_cache s' b = Some p \<and> cache_files s' p = Some c
         \<and> (\<forall>q. cache_files s' q = Some c \<longrightarrow> q = p) \<and> cache_files s' fb = None)
     \<and> (let s' = icon_downloaded e (icon_downloaded e t a fa (Callback (Some c))) b fb
                   (Callback (Some c));
          p = (case icon_cache s h of None \<Rightarrow> fa | Some p0 \<Rightarrow> p0)
      in icon_cache s' a = Some p \<and> icon_cache s' b = Some p \<and> cache_files s' p = Some c
         \<and> (\<forall>q. cache_files s' q = Some c \<longrightarrow> q = p) \<and> cache_files s' fb = None)
     \<and> (let s' = icon_downloaded e (icon_downloaded e t b fb (Callback (Some c))) a fa
                   (Callback (Some c));
          p = (case icon_cache s h of None \<Rightarrow> fb | Some p0 \<Rightarrow> p0)
      in icon_cache s' a = Some p \<and> icon_cache s' b = Some p \<and> cache_files s' p = Some c
         \<and> (\<forall>q. cache_files s' q = Some c \<longrightarrow> q = p) \<and> cache_files s' fa = None)"
proof -
  have tc: "icon_cache t = icon_cache s" and tf: "cache_files t = cache_files s"
    unfolding t_def
    using both_requested [OF ca cb na [unfolded fa_def] nb [unfolded fb_def]] by simp_all
  have fab: "fa \<noteq> fb" "fb \<noteq> fa" using ids by (simp_all add: fa_def fb_def)
  note A = resolve_two [OF ab ca cb na [unfolded fa_def] nb [unfolded fb_def] ids
      inv1 [unfolded h_def] inv2 [unfolded h_def]]
  have B: "(let s' = icon_downloaded e (icon_downloaded e t a fa (Callback (Some c))) b fb
                   (Callback (Some c));
          p = (case icon_cache s h of None \<Rightarrow> fa | Some p0 \<Rightarrow> p0)
      in icon_cache s' a = Some p \<and> icon_cache s' b = Some p \<and> cache_files s' p = Some c
         \<and> (\<forall>q. cache_files s' q = Some c \<longrightarrow> q = p) \<and> cache_files s' fb = None)"
    using finish_two [of a b t fa fb c e] ab ca cb na nb fab inv1 inv2
    unfolding Let_def tc tf h_def by blast
  have C: "(let s' = icon_downloaded e (icon_downloaded e t b fb (Callback (Some c))) a fa
                   (Callback (Some c));
          p = (case icon_cache s h of None \<Rightarrow> fb | Some p0 \<Rightarrow> p0)
      in icon_cache s' a = Some p \<and> icon_cache s' b = Some p \<and> cache_files s' p = Some c
         \<and> (\<forall>q. cache_files s' q = Some c \<longrightarrow> q = p) \<and> cache_files s' fa = None)"
    using finish_two [of b a t fb fa c e] ab ca cb na nb fab inv1 inv2
    unfolding Let_def tc tf h_def by blast
  have A': "(let s' = resolve e b (Callback (Some c)) (resolve e a (Callback (Some c)) s);
          p = (case icon_cache s h of None \<Rightarrow> fa | Some p0 \<Rightarrow> p0)
      in icon_cache s' a = Some p \<and> icon_cache s' b = Some p \<and> cache_files s' p = Some c
         \<and> (\<forall>q. cache_files s' q = Some c \<longrightarrow> q = p) \<and> cache_files s' fb = None)"
    using A unfolding Let_def fa_def fb_def h_def by blast
  show ?thesis using A' B C by blast
qed

lemma demo_values:
  "cache_dir demo_env = ''/tmp/c''" "icon_id demo_env u = u"
  "hash_bytes demo_env c = ''md5:'' @ c" "get_body demo_env b = Some b"
  "msg2icon demo_env (Some b) = Some (''http://a/'' @ b)"
  "msg2secondary_icon demo_env (Some b) = Some (''http://b/'' @ b)"
  by (simp_all add: demo_env_def)

lemma fetch_icons_demo:
  assumes "icon_cache s = Map.empty" and "cache_files s = Map.empty"
  shows "snd (fetch_icons demo_env s ''x'')
           = [(''http://a/x'', ''/tmp/c/http://a/x''), (''http://b/x'', ''/tmp/c/http://b/x'')]"
    and "icon_cache (fst (fetch_icons demo_env s ''x'')) = Map.empty"
    and "cache_files (fst (fetch_icons demo_env s ''x'')) = Map.empty"
  using assms
  by (simp_all add: fetch_icons_def fetch_one_def get_icon_def truthy_def Let_def demo_values
      logmsg_fields)

text \<open>
  C4. The code does not keep this. Two messages with the same two icons arrive on a fresh
  daemon before any download has come back, so each icon is downloaded twice, and all four
  downloads bring the same content. When the second download of the first icon comes back,
  \<open>cache_icon\<close> finds the hash in the cache and unlinks the file it has just been given,
  which is the very file the hash is registered under. In the end both references map to
  the same path, and no file is at that path, nor anywhere in the cache directory.
\<close>

theorem identical_icons_lose_their_file:
  "snd (fetch_icons demo_env demo_service ''x'')
     = [(''http://a/x'', ''/tmp/c/http://a/x''), (''http://b/x'', ''/tmp/c/http://b/x'')]
   \<and> snd (fetch_icons demo_env (fst (fetch_icons demo_env demo_service ''x'')) ''x'')
     = [(''http://a/x'', ''/tmp/c/http://a/x''), (''http://b/x'', ''/tmp/c/http://b/x'')]
   \<and> icon_cache two_messages_done ''http://a/x'' = Some ''/tmp/c/http://a/x''
   \<and> icon_cache two_messages_done ''http://b/x'' = Some ''/tmp/c/http://a/x''
   \<and> cache_files two_messages_done ''/tmp/c/http://a/x'' = None
   \<and> cache_files two_messages_done ''/tmp/c/http://b/x'' = None
   \<and> dom (cache_files two_messages_done) = {}"
proof -
  have d: "icon_cache demo_service = Map.empty" "cache_files demo_service = Map.empty"
    by (simp_all add: demo_service_def)
  note f1 = fetch_icons_demo [OF d]
  note f2 = fetch_icons_demo [OF f1(2,3)]
  have t: "icon_cache two_messages = Map.empty" "cache_files two_messages = Map.empty"
    unfolding two_messages_def using f2 by simp_all
  define u1 where "u1 = icon_downloaded demo_env two_messages
     ''http://a/x'' ''/tmp/c/http://a/x'' (Callback (Some ''png''))"
  define u2 where "u2 = icon_downloaded demo_env u1
     ''http://b/x'' ''/tmp/c/http://b/x'' (Callback (Some ''png''))"
  define u3 where "u3 = icon_downloaded demo_env u2
     ''http://a/x'' ''/tmp/c/http://a/x'' (Callback (Some ''png''))"
  have e: "two_messages_done = icon_downloaded demo_env u3
     ''http://b/x'' ''/tmp/c/http://b/x'' (Callback (Some ''png''))"
    by (simp add: two_messages_done_def u1_def u2_def u3_def)
  have c1: "icon_cache u1 = [''http://a/x'' \<mapsto> ''/tmp/c/http://a/x'',
                            ''md5:png'' \<mapsto> ''/tmp/c/http://a/x'']"
    and g1: "cache_files u1 = [''/tmp/c/http://a/x'' \<mapsto> ''png'']"
    unfolding u1_def by (simp_all add: icon_downloaded_cache icon_downloaded_files t demo_values)
  have c2: "icon_cache u2 = (icon_cache u1)(''http://b/x'' \<mapsto> ''/tmp/c/http://a/x'')"
    and g2: "cache_files u2 = (cache_files u1)(''/tmp/c/http://b/x'' := None)"
    unfolding u2_def by (simp_all add: icon_downloaded_cache icon_downloaded_files c1 demo_values)
  have c3: "icon_cache u3 = (icon_cache u2)(''http://a/x'' \<mapsto> ''/tmp/c/http://a/x'')"
    and g3: "cache_files u3 = (cache_files u2)(''/tmp/c/http://a/x'' := None)"
    unfolding u3_def
    by (simp_all add: icon_downloaded_cache icon_downloaded_files c2 c1 demo_values)
  have c4: "icon_cache two_messages_done
              = (icon_cache u3)(''http://b/x'' \<mapsto> ''/tmp/c/http://a/x'')"
    and g4: "cache_files two_messages_done = (cache_files u3)(''/tmp/c/http://b/x'' := None)"
    unfolding e
    by (simp_all add: icon_downloaded_cache icon_downloaded_files c3 c2 c1 demo_values)
  show ?thesis using f1(1) f2(1) by (simp add: c4 c3 c2 c1 g4 g3 g2 g1)
qed

end
